theory Spec2Isabelle
  imports Complex_Main
begin

section \<open>JavaScript strings and numbers\<close>

text \<open>
  Strings are lists of 8-bit code units. The numbers that the code reads with \<open>parseInt\<close>,
  counts and compares are mathematical integers, with \<open>NaN\<close> and \<open>undefined\<close> as
  \<open>None\<close>; a JavaScript double agrees with them up to \<open>2 ^ 53\<close>. The size limit, which
  the code computes in floating point from a decimal literal, is a double (see below).
\<close>

definition startsWith :: "string \<Rightarrow> string \<Rightarrow> bool" where
  "startsWith s p = (take (length p) s = p)"

definition endsWith :: "string \<Rightarrow> string \<Rightarrow> bool" where
  "endsWith s p = (length p \<le> length s \<and> drop (length s - length p) s = p)"

text \<open>\<open>s.slice(0, -k)\<close>: the string without its last \<open>k\<close> code units.\<close>

definition slice_to_neg :: "string \<Rightarrow> nat \<Rightarrow> string" where
  "slice_to_neg s k = take (length s - k) s"

fun includes_str :: "string \<Rightarrow> string \<Rightarrow> bool" where
  "includes_str [] sub = (sub = [])"
| "includes_str (c # cs) sub = (if startsWith (c # cs) sub then True else includes_str cs sub)"

fun join :: "string list \<Rightarrow> string \<Rightarrow> string" where
  "join [] sep = []"
| "join [x] sep = x"
| "join (x # y # ys) sep = x @ sep @ join (y # ys) sep"

primrec some :: "('a \<Rightarrow> bool) \<Rightarrow> 'a list \<Rightarrow> bool" where
  "some f [] = False"
| "some f (x # xs) = (if f x then True else some f xs)"

definition is_digit :: "char \<Rightarrow> bool" where
  "is_digit c = (c \<in> set ''0123456789'')"

definition is_hex_digit :: "char \<Rightarrow> bool" where
  "is_hex_digit c = (c \<in> set ''0123456789abcdefABCDEF'')"

text \<open>The class \<open>\s\<close> of a regular expression and the white space \<open>parseInt\<close> skips,
  within the 8-bit range: tab, line feed, vertical tab, form feed, carriage return, space and
  no-break space.\<close>

definition is_js_space :: "char \<Rightarrow> bool" where
  "is_js_space c = (c \<in> set [CHR 0x09, CHR 0x0A, CHR 0x0B, CHR 0x0C, CHR 0x0D, CHR 0x20, CHR 0xA0])"

definition digit_val :: "char \<Rightarrow> nat" where
  "digit_val c =
     (if is_digit c then of_char c - 48
      else if c \<in> set ''abcdef'' then of_char c - 87
      else of_char c - 55)"

definition digits_val :: "nat \<Rightarrow> string \<Rightarrow> nat" where
  "digits_val radix ds = foldl (\<lambda>a c. radix * a + digit_val c) 0 ds"

definition digit_char :: "nat \<Rightarrow> char" where
  "digit_char d = ''0123456789'' ! d"

text \<open>The decimal rendering of a non-negative integer in a template literal.\<close>

fun string_of_nat :: "nat \<Rightarrow> string" where
  "string_of_nat n =
     (if n < 10 then [digit_char n]
      else string_of_nat (n div 10) @ [digit_char (n mod 10)])"

declare string_of_nat.simps [simp del]

definition toUpperCase :: "string \<Rightarrow> string" where
  "toUpperCase s =
     map (\<lambda>c. case map_of (zip ''abcdefghijklmnopqrstuvwxyz'' ''ABCDEFGHIJKLMNOPQRSTUVWXYZ'') c of
                 Some d \<Rightarrow> d
               | None \<Rightarrow> c) s"

text \<open>
  \<open>parseInt(str)\<close> without a radix: leading white space and one sign are skipped, a
  \<open>0x\<close> prefix selects radix 16, and the longest run of digits is read; no digit gives
  \<open>NaN\<close>.
\<close>

definition parseInt :: "string \<Rightarrow> int option" where
  "parseInt str =
     (let s = dropWhile is_js_space str;
          neg = (take 1 s = ''-'');
          s1 = (if take 1 s = ''-'' then drop 1 s else if take 1 s = ''+'' then drop 1 s else s);
          hex = (if take 2 s1 = ''0x'' then True else take 2 s1 = ''0X'');
          s2 = (if hex then drop 2 s1 else s1);
          z = takeWhile (if hex then is_hex_digit else is_digit) s2;
          v = int (digits_val (if hex then 16 else 10) z)
      in if z = [] then None else Some (if neg then - v else v))"

text \<open>A query parameter or environment variable that is absent is \<open>undefined\<close>, which
  \<open>parseInt\<close> turns into \<open>NaN\<close>.\<close>

definition parseInt_opt :: "string option \<Rightarrow> int option" where
  "parseInt_opt q = (case q of None \<Rightarrow> None | Some s \<Rightarrow> parseInt s)"

text \<open>\<open>x || d\<close> on a number: \<open>NaN\<close> and \<open>0\<close> are falsy.\<close>

definition num_or :: "int option \<Rightarrow> int \<Rightarrow> int" where
  "num_or x d = (case x of None \<Rightarrow> d | Some n \<Rightarrow> if n = 0 then d else n)"

text \<open>\<open>x || d\<close> on a string: \<open>undefined\<close> and the empty string are falsy.\<close>

definition str_or :: "string option \<Rightarrow> string \<Rightarrow> string" where
  "str_or x d = (case x of None \<Rightarrow> d | Some s \<Rightarrow> if s = [] then d else s)"

section \<open>Double-precision numbers\<close>

text \<open>
  A JavaScript number that is not negative: the double \<open>m * 2 ^ s\<close>, \<open>Infinity\<close> or
  \<open>NaN\<close>. Arithmetic is that of IEEE 754 binary64: a result is rounded to the nearest
  number with 53 bits of mantissa, ties to even; the least exponent of a normal number is
  \<open>- 1022\<close>, below which the spacing stays \<open>2 ^ - 1074\<close>; a result that rounds to
  \<open>2 ^ 1024\<close> or more is \<open>Infinity\<close>.
\<close>

datatype jsnum = Num nat int | Infinity | NaN


text \<open>The number of binary digits of \<open>n\<close>.\<close>

fun bits :: "nat \<Rightarrow> nat" where
  "bits n = (if n = 0 then 0 else Suc (bits (n div 2)))"

declare bits.simps [simp del]

text \<open>The integer part of the binary logarithm of \<open>n / d\<close>, for positive \<open>n\<close> and
  \<open>d\<close>.\<close>

definition floor_log2 :: "nat \<Rightarrow> nat \<Rightarrow> int" where
  "floor_log2 n d =
     (let k = int (bits n) - int (bits d)
      in if (if 0 \<le> k then d * 2 ^ nat k \<le> n else d \<le> n * 2 ^ nat (- k)) then k else k - 1)"

text \<open>\<open>a / b\<close> rounded to the nearest integer, ties to the even one.\<close>

definition round_div_even :: "nat \<Rightarrow> nat \<Rightarrow> nat" where
  "round_div_even a b =
     (let q = a div b; r = a mod b
      in if 2 * r < b then q
         else if b < 2 * r then q + 1
         else if even q then q else q + 1)"

text \<open>The double nearest to the rational \<open>n / d\<close>, for positive \<open>d\<close>.\<close>

definition nearest_double :: "nat \<Rightarrow> nat \<Rightarrow> jsnum" where
  "nearest_double n d =
     (if n = 0 then Num 0 0
      else
        (let s = max (floor_log2 n d) (- 1022) - 52;
             m = (if s < 0 then round_div_even (n * 2 ^ nat (- s)) d
                  else round_div_even n (d * 2 ^ nat s))
         in if 0 \<le> s \<and> 2 ^ 1024 \<le> m * 2 ^ nat s then Infinity else Num m s))"

text \<open>\<open>x * y\<close> on numbers that are not negative.\<close>

definition mul_double :: "jsnum \<Rightarrow> jsnum \<Rightarrow> jsnum" where
  "mul_double x y =
     (case (x, y) of
        (Num a s, Num b t) \<Rightarrow>
          (if 0 \<le> s + t then nearest_double (a * b * 2 ^ nat (s + t)) 1
           else nearest_double (a * b) (2 ^ nat (- (s + t))))
      | (Num a s, Infinity) \<Rightarrow> (if a = 0 then NaN else Infinity)
      | (Infinity, Num b t) \<Rightarrow> (if b = 0 then NaN else Infinity)
      | (Infinity, Infinity) \<Rightarrow> Infinity
      | _ \<Rightarrow> NaN)"

section \<open>Configuration\<close>

record config =
  nodeEnv :: string
  bucketName :: string
  maxFileSize :: string
  allowedFileTypes :: "string list"
  presignedUrl_expiry :: int

text \<open>\<open>parseInt(process.env.PRESIGNED_URL_EXPIRY) || 3600\<close> and
  \<open>process.env.MAX_FILE_SIZE || '100MB'\<close>.\<close>

definition presignedUrl_expiry_of_env :: "string option \<Rightarrow> int" where
  "presignedUrl_expiry_of_env v = num_or (parseInt_opt v) 3600"

definition maxFileSize_of_env :: "string option \<Rightarrow> string" where
  "maxFileSize_of_env v = str_or v ''100MB''"



section \<open>Errors, JSON bodies and the response\<close>

record js_error =
  is_multer :: bool
  name :: string
  message :: string
  code :: "string option"
  statusCode :: "int option"
  stack :: string

text \<open>\<open>new Error(msg)\<close>; the call frames of the stack are left out.\<close>

definition Error :: "string \<Rightarrow> js_error" where
  "Error msg =
     \<lparr>is_multer = False, name = ''Error'', message = msg, code = None,
      statusCode = None, stack = ''Error: '' @ msg\<rparr>"

text \<open>\<open>JDate ms\<close> is the ISO-8601 string that \<open>toISOString\<close> gives for the instant
  \<open>ms\<close> milliseconds after the epoch.\<close>

datatype json =
    JBool bool
  | JNum int
  | JStr string
  | JDate int
  | JArr "json list"
  | JObj "(string \<times> json) list"

record response =
  status :: int
  body :: json

datatype next_call = No_next | Next js_error

text \<open>What one request has done so far: clock readings taken, uuids drawn, calls issued to
  the object store, and bodies written with \<open>res.status(s).json(b)\<close>.\<close>

datatype call =
    PutObject string string string int "(string \<times> json) list"
  | PresignedGetObject string string int
  | ListObjects string string bool

record world =
  reads :: nat
  draws :: nat
  calls :: "call list"
  sent :: "response list"

definition send :: "int \<Rightarrow> json \<Rightarrow> world \<Rightarrow> world" where
  "send s b w = w\<lparr>sent := sent w @ [\<lparr>status = s, body = b\<rparr>]\<rparr>"

section \<open>Upload middleware\<close>

text \<open>The regular expression \<open>/^(\d+(?:\.\d+)?)\s*(B|KB|MB|GB)$/i\<close>: the two groups of a
  match.\<close>

definition fraction_digits :: "string \<Rightarrow> string" where
  "fraction_digits r = (if take 1 r = ''.'' then takeWhile is_digit (drop 1 r) else [])"

definition after_number :: "string \<Rightarrow> string" where
  "after_number r = (if fraction_digits r = [] then r else dropWhile is_digit (drop 1 r))"

definition match_size :: "string \<Rightarrow> (string \<times> string) option" where
  "match_size sizeStr =
     (let ip = takeWhile is_digit sizeStr;
          r = dropWhile is_digit sizeStr;
          fp = fraction_digits r;
          u = dropWhile is_js_space (after_number r)
      in if ip = [] then None
         else if toUpperCase u \<in> set [''B'', ''KB'', ''MB'', ''GB'']
         then Some (if fp = [] then ip else ip @ ''.'' @ fp, u)
         else None)"

text \<open>
  \<open>parseFloat\<close> on a string that starts with an unsigned decimal literal without an
  exponent, as the first group does: the digits \<open>ip\<close> before the point and the digits
  \<open>fp\<close> after it stand for the rational \<open>ip fp / 10 ^ length fp\<close>, and the result is the
  double nearest to it (the language lets an implementation cut a literal after its 20th
  significant digit; V8 rounds the whole literal). No digit at all gives \<open>NaN\<close>.
\<close>

definition parseFloat :: "string \<Rightarrow> jsnum" where
  "parseFloat num =
     (let ip = takeWhile is_digit num;
          fp = fraction_digits (dropWhile is_digit num)
      in if ip = [] \<and> fp = [] then NaN
         else nearest_double (digits_val 10 (ip @ fp)) (10 ^ length fp))"

text \<open>The table \<open>units\<close>; every entry is an integer that a double holds exactly. A key that
  is not in the table gives \<open>undefined\<close>, and a product with it \<open>NaN\<close>.\<close>

definition units :: "string \<Rightarrow> nat option" where
  "units k = map_of [(''B'', 1), (''KB'', 1024), (''MB'', 1024 ^ 2), (''GB'', 1024 ^ 3)] k"

definition parseSize :: "string \<Rightarrow> jsnum" where
  "parseSize sizeStr =
     (case match_size sizeStr of
        None \<Rightarrow> mul_double (mul_double (Num 10 0) (Num 1024 0)) (Num 1024 0)
      | Some (num, u) \<Rightarrow>
          (case units (toUpperCase u) of
             None \<Rightarrow> NaN
           | Some b \<Rightarrow> mul_double (parseFloat num) (Num b 0)))"

definition type_matches :: "string \<Rightarrow> string \<Rightarrow> bool" where
  "type_matches mimetype type =
     (if endsWith type ''/*'' then startsWith mimetype (slice_to_neg type 2)
      else mimetype = type)"

definition isAllowed :: "string list \<Rightarrow> string \<Rightarrow> bool" where
  "isAllowed allowedTypes mimetype = some (type_matches mimetype) allowedTypes"

text \<open>The callback of \<open>fileFilter\<close>: \<open>cb(null, true)\<close> or \<open>cb(new Error(...), false)\<close>.\<close>

definition fileFilter :: "config \<Rightarrow> string \<Rightarrow> js_error + bool" where
  "fileFilter cfg mimetype =
     (if isAllowed (allowedFileTypes cfg) mimetype then Inr True
      else Inl (Error (''File type '' @ mimetype @ '' is not allowed. Allowed types: ''
                        @ join (allowedFileTypes cfg) '', '')))"

record limits =
  fileSize :: jsnum
  files :: nat

definition upload_limits :: "config \<Rightarrow> limits" where
  "upload_limits cfg = \<lparr>fileSize = parseSize (maxFileSize cfg), files = 10\<rparr>"

definition handleMulterError :: "config \<Rightarrow> js_error \<Rightarrow> world \<Rightarrow> next_call \<times> world" where
  "handleMulterError cfg error w =
     (if is_multer error then
        (if code error = Some ''LIMIT_FILE_SIZE'' then
           (No_next, send 400 (JObj
              [(''success'', JBool False),
               (''error'', JStr ''File too large''),
               (''message'', JStr (''Maximum file size is '' @ maxFileSize cfg)),
               (''code'', JStr ''FILE_TOO_LARGE'')]) w)
         else if code error = Some ''LIMIT_FILE_COUNT'' then
           (No_next, send 400 (JObj
              [(''success'', JBool False),
               (''error'', JStr ''Too many files''),
               (''message'', JStr ''Maximum 10 files per request''),
               (''code'', JStr ''TOO_MANY_FILES'')]) w)
         else if code error = Some ''LIMIT_UNEXPECTED_FILE'' then
           (No_next, send 400 (JObj
              [(''success'', JBool False),
               (''error'', JStr ''Unexpected field''),
               (''message'', JStr ''Unexpected file field''),
               (''code'', JStr ''UNEXPECTED_FIELD'')]) w)
         else
           (No_next, send 400 (JObj
              [(''success'', JBool False),
               (''error'', JStr ''Upload error''),
               (''message'', JStr (message error)),
               (''code'', JStr ''UPLOAD_ERROR'')]) w))
      else if includes_str (message error) ''File type'' then
        (No_next, send 400 (JObj
           [(''success'', JBool False),
            (''error'', JStr ''Invalid file type''),
            (''message'', JStr (message error)),
            (''code'', JStr ''INVALID_FILE_TYPE'')]) w)
      else (Next error, w))"

section \<open>Final error handlers\<close>

record uploaded_file =
  originalname :: string
  mimetype :: string
  buffer :: string
  fsize :: int

text \<open>The parts of \<open>req\<close> the handlers read: \<open>req.path\<close>, \<open>req.method\<close>,
  \<open>req.file\<close>, \<open>req.files\<close>, \<open>req.body.path\<close>, \<open>req.query.*\<close> and
  \<open>req.params.filename\<close>.\<close>

record request =
  req_path :: string
  req_method :: string
  req_file :: "uploaded_file option"
  req_files :: "uploaded_file list option"
  body_path :: "string option"
  query_path :: "string option"
  query_expiry :: "string option"
  query_prefix :: "string option"
  query_limit :: "string option"
  params_filename :: string

text \<open>\<open>errorHandler\<close> always writes one body; \<open>clock k\<close> is what the \<open>k\<close>-th reading
  of the clock (\<open>Date.now()\<close>, \<open>new Date()\<close>) returns, in milliseconds.\<close>

definition errorHandler :: "config \<Rightarrow> (nat \<Rightarrow> nat) \<Rightarrow> js_error \<Rightarrow> request \<Rightarrow> world \<Rightarrow> world" where
  "errorHandler cfg clock err req w =
     (let statusCode0 = num_or (statusCode err) 500;
          message0 = str_or (Some (message err)) ''Internal Server Error'';
          code0 = str_or (code err) ''INTERNAL_ERROR'';
          (statusCode1, message1, code1) =
            (if name err = ''ValidationError'' then (400, message0, ''VALIDATION_ERROR'')
             else if name err = ''UnauthorizedError'' then (401, message0, ''UNAUTHORIZED'')
             else if includes_str (message err) ''ECONNREFUSED''
               then (503, ''Storage service unavailable'', ''SERVICE_UNAVAILABLE'')
             else if includes_str (message err) ''NoSuchBucket''
               then (500, ''Storage bucket not found'', ''BUCKET_NOT_FOUND'')
             else if includes_str (message err) ''AccessDenied''
               then (403, ''Storage access denied'', ''ACCESS_DENIED'')
             else (statusCode0, message0, code0));
          errorResponse =
            [(''success'', JBool False),
             (''error'', JStr message1),
             (''code'', JStr code1),
             (''timestamp'', JDate (int (clock (reads w)))),
             (''path'', JStr (req_path req)),
             (''method'', JStr (req_method req))]
            @ (if nodeEnv cfg = ''development'' then [(''stack'', JStr (stack err))] else [])
      in send statusCode1 (JObj errorResponse) (w\<lparr>reads := reads w + 1\<rparr>))"



definition field :: "string \<Rightarrow> json \<Rightarrow> json option" where
  "field k j = (case j of JObj kvs \<Rightarrow> map_of kvs k | _ \<Rightarrow> None)"

text \<open>The error path of the two upload routes: an error raised while decoding goes to
  \<open>handleMulterError\<close>, and from its \<open>next(error)\<close> to \<open>errorHandler\<close>.\<close>

definition on_upload_error :: "config \<Rightarrow> (nat \<Rightarrow> nat) \<Rightarrow> js_error \<Rightarrow> request \<Rightarrow> world \<Rightarrow> world" where
  "on_upload_error cfg clock error req w =
     (case handleMulterError cfg error w of
        (No_next, w1) \<Rightarrow> w1
      | (Next e, w1) \<Rightarrow> errorHandler cfg clock e req w1)"

section \<open>Storage service\<close>

text \<open>
  \<open>path.extname\<close> and \<open>path.basename\<close> are built into Node.js (POSIX flavour) and are
  not part of the repository; they are written here after the documentation of Node.js.
  Both look at the last component of the path: trailing slashes are dropped, then everything
  up to the last remaining slash. The extension runs from the last dot of that component to
  its end; it is empty when the component has no dot, when its only dot is its first
  character, and for the component \<open>..\<close>. \<open>basename path ext\<close> is the component without
  \<open>ext\<close> when \<open>ext\<close> is a proper suffix of it.
\<close>

definition last_component :: "string \<Rightarrow> string" where
  "last_component p =
     rev (takeWhile (\<lambda>c. c \<noteq> CHR ''/'') (dropWhile (\<lambda>c. c = CHR ''/'') (rev p)))"

definition extname :: "string \<Rightarrow> string" where
  "extname p =
     (let c = last_component p;
          r = takeWhile (\<lambda>x. x \<noteq> CHR ''.'') (rev c)
      in if CHR ''.'' \<in> set c then
           (if Suc (length r) = length c then []
            else if c = ''..'' then []
            else CHR ''.'' # rev r)
         else [])"

definition basename :: "string \<Rightarrow> string \<Rightarrow> string" where
  "basename p ext =
     (let c = last_component p
      in if ext = [] then c
         else if ext = p then []
         else if ext = c then c
         else if endsWith c ext then take (length c - length ext) c
         else c)"

definition generateUniqueFilename :: "string \<Rightarrow> nat \<Rightarrow> string \<Rightarrow> string" where
  "generateUniqueFilename originalName timestamp uuid4 =
     (let ext = extname originalName;
          baseName = basename originalName ext;
          uuid = takeWhile (\<lambda>c. c \<noteq> CHR ''-'') uuid4
      in baseName @ ''_'' @ string_of_nat timestamp @ ''_'' @ uuid @ ext)"

text \<open>An object reported by the store's listing.\<close>

record bucket_item =
  item_name :: string
  item_size :: int
  item_lastModified :: int
  item_etag :: string

text \<open>
  The object-store client is a parameter. \<open>putObject\<close> resolves (\<open>None\<close>) or rejects with
  an error message; \<open>presignedGetObject\<close> rejects or resolves to a URL; \<open>listObjects\<close>
  throws, or returns a stream that emits its items and then \<open>end\<close> (\<open>None\<close>) or
  \<open>error\<close>.
\<close>

record minio_client =
  putObject :: "string \<Rightarrow> string \<Rightarrow> string \<Rightarrow> int \<Rightarrow> (string \<times> json) list \<Rightarrow> string option"
  presignedGetObject :: "string \<Rightarrow> string \<Rightarrow> int \<Rightarrow> string + string"
  listObjects :: "string \<Rightarrow> string \<Rightarrow> bool \<Rightarrow> string + (bucket_item list \<times> string option)"

record env =
  cfg :: config
  clock :: "nat \<Rightarrow> nat"
  uuidv4 :: "nat \<Rightarrow> string"
  client :: minio_client

definition Date_now :: "env \<Rightarrow> world \<Rightarrow> nat \<times> world" where
  "Date_now e w = (clock e (reads w), w\<lparr>reads := reads w + 1\<rparr>)"

definition draw_uuid :: "env \<Rightarrow> world \<Rightarrow> string \<times> world" where
  "draw_uuid e w = (uuidv4 e (draws w), w\<lparr>draws := draws w + 1\<rparr>)"

definition issue :: "call \<Rightarrow> world \<Rightarrow> world" where
  "issue c w = w\<lparr>calls := calls w @ [c]\<rparr>"

text \<open>A time value outside this range makes \<open>toISOString\<close> throw a \<open>RangeError\<close>.\<close>

definition valid_time :: "int \<Rightarrow> bool" where
  "valid_time t = (- 8640000000000000 \<le> t \<and> t \<le> 8640000000000000)"

definition objectName_of :: "string \<Rightarrow> string \<Rightarrow> string" where
  "objectName_of customPath uniqueFilename =
     (if customPath = [] then uniqueFilename else customPath @ ''/'' @ uniqueFilename)"

definition uploadFile :: "env \<Rightarrow> uploaded_file \<Rightarrow> string \<Rightarrow> world \<Rightarrow> (js_error + (string \<times> json) list) \<times> world" where
  "uploadFile e f customPath w =
     (let (timestamp, w1) = Date_now e w;
          (uuid4, w2) = draw_uuid e w1;
          uniqueFilename = generateUniqueFilename (originalname f) timestamp uuid4;
          objectName = objectName_of customPath uniqueFilename;
          (d1, w3) = Date_now e w2;
          metaData =
            [(''Content-Type'', JStr (mimetype f)),
             (''Original-Name'', JStr (originalname f)),
             (''Upload-Date'', JDate (int d1))];
          w4 = issue (PutObject (bucketName (cfg e)) objectName (buffer f) (fsize f) metaData) w3
      in case putObject (client e) (bucketName (cfg e)) objectName (buffer f) (fsize f) metaData of
           Some msg \<Rightarrow> (Inl (Error (''Upload failed: '' @ msg)), w4)
         | None \<Rightarrow>
             (let (d2, w5) = Date_now e w4
              in (Inr [(''success'', JBool True),
                       (''objectName'', JStr objectName),
                       (''originalName'', JStr (originalname f)),
                       (''size'', JNum (fsize f)),
                       (''mimetype'', JStr (mimetype f)),
                       (''uploadDate'', JDate (int d2))], w5)))"

definition getPresignedUrl :: "env \<Rightarrow> string \<Rightarrow> int option \<Rightarrow> world \<Rightarrow> (js_error + (string \<times> json) list) \<times> world" where
  "getPresignedUrl e objectName expiry_arg w =
     (let expiry = (case expiry_arg of None \<Rightarrow> presignedUrl_expiry (cfg e) | Some x \<Rightarrow> x);
          w1 = issue (PresignedGetObject (bucketName (cfg e)) objectName expiry) w
      in case presignedGetObject (client e) (bucketName (cfg e)) objectName expiry of
           Inl msg \<Rightarrow> (Inl (Error (''Failed to generate URL: '' @ msg)), w1)
         | Inr url \<Rightarrow>
             (let (now, w2) = Date_now e w1;
                  t = int now + expiry * 1000
              in if valid_time t
                 then (Inr [(''success'', JBool True),
                            (''url'', JStr url),
                            (''expiresIn'', JNum expiry),
                            (''expiresAt'', JDate t)], w2)
                 else (Inl (Error ''Failed to generate URL: Invalid time value''), w2)))"

text \<open>The \<open>data\<close> handler of the listing stream, and the entry it pushes.\<close>

definition entry_of :: "bucket_item \<Rightarrow> json" where
  "entry_of obj =
     JObj [(''name'', JStr (item_name obj)),
           (''size'', JNum (item_size obj)),
           (''lastModified'', JDate (item_lastModified obj)),
           (''etag'', JStr (item_etag obj))]"

definition on_data :: "int \<Rightarrow> json list \<Rightarrow> bucket_item \<Rightarrow> json list" where
  "on_data maxKeys objects obj =
     (if int (length objects) < maxKeys then objects @ [entry_of obj] else objects)"

definition listFiles :: "env \<Rightarrow> string option \<Rightarrow> int option \<Rightarrow> world \<Rightarrow> (js_error + (string \<times> json) list) \<times> world" where
  "listFiles e prefix_arg maxKeys_arg w =
     (let prefix = (case prefix_arg of None \<Rightarrow> [] | Some p \<Rightarrow> p);
          maxKeys = (case maxKeys_arg of None \<Rightarrow> 1000 | Some n \<Rightarrow> n);
          w1 = issue (ListObjects (bucketName (cfg e)) prefix True) w
      in case listObjects (client e) (bucketName (cfg e)) prefix True of
           Inl msg \<Rightarrow> (Inl (Error (''List failed: '' @ msg)), w1)
         | Inr (items, fin) \<Rightarrow>
             (let objects = foldl (on_data maxKeys) [] items
              in case fin of
                   Some msg \<Rightarrow> (Inl (Error (''List failed: '' @ msg)), w1)
                 | None \<Rightarrow>
                     (Inr [(''success'', JBool True),
                           (''files'', JArr objects),
                           (''count'', JNum (int (length objects)))], w1)))"

section \<open>Controller\<close>

definition get_prop :: "string \<Rightarrow> (string \<times> json) list \<Rightarrow> json" where
  "get_prop k kvs = (case map_of kvs k of Some v \<Rightarrow> v | None \<Rightarrow> JStr [])"

definition get_str :: "string \<Rightarrow> (string \<times> json) list \<Rightarrow> string" where
  "get_str k kvs = (case map_of kvs k of Some (JStr s) \<Rightarrow> s | _ \<Rightarrow> [])"

text \<open>\<open>req.body.path || req.query.path || ''\<close>.\<close>

definition customPath_of :: "request \<Rightarrow> string" where
  "customPath_of req = str_or (body_path req) (str_or (query_path req) [])"

definition uploadSingle :: "env \<Rightarrow> request \<Rightarrow> world \<Rightarrow> next_call \<times> world" where
  "uploadSingle e req w =
     (case req_file req of
        None \<Rightarrow>
          (No_next, send 400 (JObj
             [(''success'', JBool False),
              (''error'', JStr ''No file provided''),
              (''code'', JStr ''NO_FILE'')]) w)
      | Some f \<Rightarrow>
          (case uploadFile e f (customPath_of req) w of
             (Inl err, w1) \<Rightarrow> (Next err, w1)
           | (Inr result, w1) \<Rightarrow>
               (case getPresignedUrl e (get_str ''objectName'' result) None w1 of
                  (Inl err, w2) \<Rightarrow> (Next err, w2)
                | (Inr urlResult, w2) \<Rightarrow>
                    (No_next, send 201 (JObj
                       [(''success'', JBool True),
                        (''message'', JStr ''File uploaded successfully''),
                        (''data'', JObj (result @
                           [(''accessUrl'', get_prop ''url'' urlResult),
                            (''urlExpiresAt'', get_prop ''expiresAt'' urlResult)]))]) w2))))"

text \<open>
  \<open>Promise.all\<close> over \<open>map\<close>: every call is started, in list order, whether or not an
  earlier one fails; the batch fails with the first failure, taken here in list order.
\<close>

fun upload_each :: "env \<Rightarrow> string \<Rightarrow> uploaded_file list \<Rightarrow> world \<Rightarrow> (js_error + (string \<times> json) list) list \<times> world" where
  "upload_each e customPath [] w = ([], w)"
| "upload_each e customPath (f # fs) w =
     (case uploadFile e f customPath w of
        (r, w1) \<Rightarrow> (case upload_each e customPath fs w1 of (rs, w2) \<Rightarrow> (r # rs, w2)))"

fun presign_each :: "env \<Rightarrow> (string \<times> json) list list \<Rightarrow> world \<Rightarrow> (js_error + (string \<times> json) list) list \<times> world" where
  "presign_each e [] w = ([], w)"
| "presign_each e (result # results) w =
     (case getPresignedUrl e (get_str ''objectName'' result) None w of
        (r, w1) \<Rightarrow> (case presign_each e results w1 of (rs, w2) \<Rightarrow> (r # rs, w2)))"

fun all_settled :: "('e + 'a) list \<Rightarrow> 'e + 'a list" where
  "all_settled [] = Inr []"
| "all_settled (Inl err # rs) = Inl err"
| "all_settled (Inr x # rs) = (case all_settled rs of Inl err \<Rightarrow> Inl err | Inr xs \<Rightarrow> Inr (x # xs))"

definition with_url :: "(string \<times> json) list \<times> (string \<times> json) list \<Rightarrow> json" where
  "with_url p =
     (case p of (result, urlResult) \<Rightarrow>
        JObj (result @ [(''accessUrl'', get_prop ''url'' urlResult),
                        (''urlExpiresAt'', get_prop ''expiresAt'' urlResult)]))"

definition uploadMultiple :: "env \<Rightarrow> request \<Rightarrow> world \<Rightarrow> next_call \<times> world" where
  "uploadMultiple e req w =
     (case (case req_files req of None \<Rightarrow> [] | Some fs \<Rightarrow> fs) of
        [] \<Rightarrow>
          (No_next, send 400 (JObj
             [(''success'', JBool False),
              (''error'', JStr ''No files provided''),
              (''code'', JStr ''NO_FILES'')]) w)
      | f # fs \<Rightarrow>
          (case upload_each e (customPath_of req) (f # fs) w of
             (rs, w1) \<Rightarrow>
               (case all_settled rs of
                  Inl err \<Rightarrow> (Next err, w1)
                | Inr results \<Rightarrow>
                    (case presign_each e results w1 of
                       (us, w2) \<Rightarrow>
                         (case all_settled us of
                            Inl err \<Rightarrow> (Next err, w2)
                          | Inr urlResults \<Rightarrow>
                              (No_next, send 201 (JObj
                                 [(''success'', JBool True),
                                  (''message'', JStr (string_of_nat (length results)
                                                       @ '' files uploaded successfully'')),
                                  (''data'', JObj
                                     [(''files'', JArr (map with_url (zip results urlResults))),
                                      (''count'', JNum (int (length results)))])]) w2))))))"


text \<open>\<open>FileController.listFiles\<close>, the handler of \<open>GET /list\<close>.\<close>

definition listFiles_handler :: "env \<Rightarrow> request \<Rightarrow> world \<Rightarrow> next_call \<times> world" where
  "listFiles_handler e req w =
     (let prefix = str_or (query_prefix req) [];
          maxKeys = num_or (parseInt_opt (query_limit req)) 1000
      in case listFiles e (Some prefix) (Some maxKeys) w of
           (Inl err, w1) \<Rightarrow> (Next err, w1)
         | (Inr result, w1) \<Rightarrow>
             (No_next, send 200 (JObj
                [(''success'', JBool True),
                 (''message'', JStr ''Files retrieved successfully''),
                 (''data'', JObj result)]) w1))"

section \<open>Multipart decoding and the upload routes\<close>

definition MulterError :: "string \<Rightarrow> string \<Rightarrow> js_error" where
  "MulterError c msg =
     \<lparr>is_multer = True, name = ''MulterError'', message = msg, code = Some c,
      statusCode = None, stack = ''MulterError: '' @ msg\<rparr>"

text \<open>A file part of a multipart body, as the decoder sees it; \<open>truncated\<close> is the
  decoder's own verdict that the part's bytes reached \<open>limits.fileSize\<close>.\<close>

record part =
  fieldname :: string
  content :: uploaded_file
  truncated :: bool

text \<open>
  Modelled from the spec: the multipart decoder that \<open>upload.single\<close> and
  \<open>upload.array\<close> run (the multer library; its source is not in the repository). The
  allow-list and the size ceiling are enforced during decode, and at most 10 files per
  request is a hard decode-time limit. File parts are taken in order and the first
  violation ends decoding: a part beyond \<open>limits.files\<close> gives the multer error
  \<open>LIMIT_FILE_COUNT\<close>, a part under another field or beyond the field's count
  \<open>LIMIT_UNEXPECTED_FILE\<close>, a part that \<open>fileFilter\<close> rejects the error of
  \<open>fileFilter\<close>, and a truncated part \<open>LIMIT_FILE_SIZE\<close>.
\<close>

fun decode_parts :: "config \<Rightarrow> limits \<Rightarrow> string \<Rightarrow> nat \<Rightarrow> part list \<Rightarrow> uploaded_file list \<Rightarrow> js_error + uploaded_file list" where
  "decode_parts c lims fld maxCount [] acc = Inr acc"
| "decode_parts c lims fld maxCount (p # ps) acc =
     (if files lims \<le> length acc then Inl (MulterError ''LIMIT_FILE_COUNT'' ''Too many files'')
      else if fieldname p \<noteq> fld then Inl (MulterError ''LIMIT_UNEXPECTED_FILE'' ''Unexpected field'')
      else if maxCount \<le> length acc then Inl (MulterError ''LIMIT_UNEXPECTED_FILE'' ''Unexpected field'')
      else (case fileFilter c (mimetype (content p)) of
              Inl err \<Rightarrow> Inl err
            | Inr ok \<Rightarrow>
                if truncated p then Inl (MulterError ''LIMIT_FILE_SIZE'' ''File too large'')
                else decode_parts c lims fld maxCount ps (acc @ [content p])))"

text \<open>\<open>POST /upload\<close>: \<open>upload.single('file')\<close>, \<open>handleMulterError\<close>,
  \<open>uploadSingle\<close>, and the application's \<open>errorHandler\<close> behind them.\<close>

definition post_upload :: "env \<Rightarrow> part list \<Rightarrow> request \<Rightarrow> world \<Rightarrow> world" where
  "post_upload e parts req w =
     (case decode_parts (cfg e) (upload_limits (cfg e)) ''file'' 1 parts [] of
        Inl err \<Rightarrow> on_upload_error (cfg e) (clock e) err req w
      | Inr fs \<Rightarrow>
          (case uploadSingle e (req\<lparr>req_file := (case fs of [] \<Rightarrow> None | f # rest \<Rightarrow> Some f)\<rparr>) w of
             (No_next, w1) \<Rightarrow> w1
           | (Next err, w1) \<Rightarrow> errorHandler (cfg e) (clock e) err req w1))"

text \<open>\<open>POST /upload/multiple\<close>: \<open>upload.array('files', 10)\<close>, \<open>handleMulterError\<close>,
  \<open>uploadMultiple\<close>.\<close>

definition post_upload_multiple :: "env \<Rightarrow> part list \<Rightarrow> request \<Rightarrow> world \<Rightarrow> world" where
  "post_upload_multiple e parts req w =
     (case decode_parts (cfg e) (upload_limits (cfg e)) ''files'' 10 parts [] of
        Inl err \<Rightarrow> on_upload_error (cfg e) (clock e) err req w
      | Inr fs \<Rightarrow>
          (case uploadMultiple e (req\<lparr>req_files := Some fs\<rparr>) w of
             (No_next, w1) \<Rightarrow> w1
           | (Next err, w1) \<Rightarrow> errorHandler (cfg e) (clock e) err req w1))"

section \<open>Statements of the specification\<close>

text \<open>The type filter as the specification words it: a type is accepted by an entry it
  equals, or by an entry ending in \<open>/*\<close> whose prefix up to and including the slash is
  the type's prefix up to and including the slash.\<close>

definition upto_slash :: "string \<Rightarrow> string option" where
  "upto_slash s =
     (if CHR ''/'' \<in> set s then Some (takeWhile (\<lambda>c. c \<noteq> CHR ''/'') s @ ''/'') else None)"

definition entry_accepts_spec :: "string \<Rightarrow> string \<Rightarrow> bool" where
  "entry_accepts_spec t entry =
     (if t = entry then True
      else if endsWith entry ''/*'' then upto_slash t = upto_slash entry
      else False)"

definition accepted_spec :: "string list \<Rightarrow> string \<Rightarrow> bool" where
  "accepted_spec L t = some (entry_accepts_spec t) L"


text \<open>The object key as the specification words it: the file name split at its last dot.\<close>

definition split_last_dot :: "string \<Rightarrow> string \<times> string" where
  "split_last_dot f =
     (if CHR ''.'' \<in> set f
      then (rev (drop 1 (dropWhile (\<lambda>c. c \<noteq> CHR ''.'') (rev f))),
            CHR ''.'' # rev (takeWhile (\<lambda>c. c \<noteq> CHR ''.'') (rev f)))
      else (f, []))"

definition object_key_spec :: "string \<Rightarrow> string \<Rightarrow> nat \<Rightarrow> string \<Rightarrow> string" where
  "object_key_spec f p timestamp suffix =
     (if p = [] then [] else p @ ''/'')
       @ fst (split_last_dot f) @ ''_'' @ string_of_nat timestamp @ ''_'' @ suffix
       @ snd (split_last_dot f)"

text \<open>A version-4 UUID as \<open>uuidv4()\<close> prints it: 8-4-4-4-12 lower-case hexadecimal
  digits.\<close>

definition is_lower_hex :: "char \<Rightarrow> bool" where
  "is_lower_hex c = (c \<in> set ''0123456789abcdef'')"

definition is_uuid :: "string \<Rightarrow> bool" where
  "is_uuid u =
     (length u = 36 \<and> list_all is_lower_hex (take 8 u) \<and> u ! 8 = CHR ''-''
      \<and> list_all is_lower_hex (take 4 (drop 9 u)) \<and> u ! 13 = CHR ''-''
      \<and> list_all is_lower_hex (take 4 (drop 14 u)) \<and> u ! 18 = CHR ''-''
      \<and> list_all is_lower_hex (take 4 (drop 19 u)) \<and> u ! 23 = CHR ''-''
      \<and> list_all is_lower_hex (drop 24 u))"

text \<open>The entries listed in the \<open>data.files\<close> of a response body.\<close>

definition data_files :: "json \<Rightarrow> json list" where
  "data_files b =
     (case field ''data'' b of
        Some d \<Rightarrow> (case field ''files'' d of Some (JArr xs) \<Rightarrow> xs | _ \<Rightarrow> [])
      | None \<Rightarrow> [])"

section \<open>Concrete inputs\<close>

text \<open>The configuration when no environment variable is set, the state at the start of a
  request, and an object store that holds the given items and accepts every call.\<close>

definition default_config :: config where
  "default_config =
     \<lparr>nodeEnv = ''development'', bucketName = ''uploads'',
      maxFileSize = maxFileSize_of_env None,
      allowedFileTypes = [''video/*'', ''image/*'', ''application/pdf''],
      presignedUrl_expiry = presignedUrl_expiry_of_env None\<rparr>"

definition fresh :: world where
  "fresh = \<lparr>reads = 0, draws = 0, calls = [], sent = []\<rparr>"

definition store_of :: "bucket_item list \<Rightarrow> minio_client" where
  "store_of items =
     \<lparr>putObject = (\<lambda>b n d s m. None),
      presignedGetObject = (\<lambda>b n x. Inr (''https://minio.local/'' @ b @ ''/'' @ n)),
      listObjects = (\<lambda>b p r. Inr (items, None))\<rparr>"

definition env_of :: "bucket_item list \<Rightarrow> env" where
  "env_of items =
     \<lparr>cfg = default_config,
      clock = (\<lambda>k. 1700000000000 + k),
      uuidv4 = (\<lambda>k. ''3f2a9c1e-7b4d-4e8a-9c0f-1a2b3c4d5e6f''),
      client = store_of items\<rparr>"

definition get_request :: "string \<Rightarrow> request" where
  "get_request p =
     \<lparr>req_path = p, req_method = ''GET'', req_file = None, req_files = None,
      body_path = None, query_path = None, query_expiry = None, query_prefix = None,
      query_limit = None, params_filename = []\<rparr>"

text \<open>The error of the handler's own test: a status code and a code of its own.\<close>

definition custom_error :: js_error where
  "custom_error = (Error ''Bad request'')\<lparr>statusCode := Some 400, code := Some ''BAD_REQUEST''\<rparr>"

text \<open>A file part that passes the decoder on its own: the expected field, an allowed type,
  not truncated.\<close>

definition acceptable :: "config \<Rightarrow> string \<Rightarrow> part \<Rightarrow> bool" where
  "acceptable c fld p =
     (fieldname p = fld \<and> isAllowed (allowedFileTypes c) (mimetype (content p)) \<and> \<not> truncated p)"

text \<open>Response bodies that the statements below name.\<close>

definition too_many_files_body :: json where
  "too_many_files_body =
     JObj [(''success'', JBool False),
           (''error'', JStr ''Too many files''),
           (''message'', JStr ''Maximum 10 files per request''),
           (''code'', JStr ''TOO_MANY_FILES'')]"

definition list_body :: "json list \<Rightarrow> json" where
  "list_body objects =
     JObj [(''success'', JBool True),
           (''message'', JStr ''Files retrieved successfully''),
           (''data'', JObj [(''success'', JBool True),
                            (''files'', JArr objects),
                            (''count'', JNum (int (length objects)))])]"


text \<open>Further concrete inputs: a file part, a listed object, and requests of the list and
  URL routes.\<close>

definition sample_part :: part where
  "sample_part =
     \<lparr>fieldname = ''files'',
      content = \<lparr>originalname = ''clip.mp4'', mimetype = ''video/mp4'', buffer = ''hello'', fsize = 5\<rparr>,
      truncated = False\<rparr>"

definition sample_item :: bucket_item where
  "sample_item = \<lparr>item_name = ''clip_1700000000000_3f2a9c1e.mp4'', item_size = 5,
     item_lastModified = 1700000000500, item_etag = ''5d41402abc4b2a76b9719d911017c592''\<rparr>"

definition html_part :: part where
  "html_part =
     \<lparr>fieldname = ''files'',
      content = \<lparr>originalname = ''page.html'', mimetype = ''text/html'', buffer = ''<p>'', fsize = 3\<rparr>,
      truncated = False\<rparr>"

definition list_request :: "string \<Rightarrow> request" where
  "list_request limit = (get_request ''/api/files/list'')\<lparr>query_limit := Some limit\<rparr>"


section \<open>Properties of the string primitives\<close>

lemma startsWith_iff: "startsWith s p \<longleftrightarrow> (\<exists>r. s = p @ r)"
  unfolding startsWith_def
  by (metis append_eq_conv_conj append_take_drop_id)

lemma includes_iff: "includes_str s sub \<longleftrightarrow> (\<exists>a b. s = a @ sub @ b)"
proof (induction s)
  case Nil
  then show ?case by auto
next
  case (Cons c cs)
  show ?case
  proof
    assume "includes_str (c # cs) sub"
    then consider "startsWith (c # cs) sub" | "includes_str cs sub"
      by (auto split: if_splits)
    then show "\<exists>a b. c # cs = a @ sub @ b"
    proof cases
      case 1
      then obtain r where "c # cs = sub @ r" by (auto simp: startsWith_iff)
      then have "c # cs = [] @ sub @ r" by simp
      then show ?thesis by blast
    next
      case 2
      then obtain a b where "cs = a @ sub @ b" using Cons.IH by blast
      then have "c # cs = (c # a) @ sub @ b" by simp
      then show ?thesis by blast
    qed
  next
    assume "\<exists>a b. c # cs = a @ sub @ b"
    then obtain a b where ab: "c # cs = a @ sub @ b" by blast
    show "includes_str (c # cs) sub"
    proof (cases a)
      case Nil
      with ab have "startsWith (c # cs) sub" by (auto simp: startsWith_iff)
      then show ?thesis by simp
    next
      case (Cons x a')
      with ab have "cs = a' @ sub @ b" by simp
      then have "includes_str cs sub" using Cons.IH by blast
      then show ?thesis by simp
    qed
  qed
qed

lemma some_iff: "some f xs \<longleftrightarrow> (\<exists>x \<in> set xs. f x)"
  by (induction xs) auto

lemma string_of_nat_small: "n < 10 \<Longrightarrow> string_of_nat n = [digit_char n]"
  by (simp add: string_of_nat.simps)

lemma string_of_nat_large:
  "\<not> n < 10 \<Longrightarrow> string_of_nat n = string_of_nat (n div 10) @ [digit_char (n mod 10)]"
  by (subst string_of_nat.simps) simp

lemmas eval_strings =
  startsWith_def endsWith_def slice_to_neg_def is_digit_def is_hex_digit_def is_js_space_def
  digit_val_def digits_val_def digit_char_def string_of_nat_small string_of_nat_large
  toUpperCase_def parseInt_def parseInt_opt_def num_or_def str_or_def

section \<open>The type filter\<close>

text \<open>What \<open>fileFilter\<close> accepts: a wildcard entry is cut before its slash, so it is
  compared with the start of the type without the slash.\<close>

lemma isAllowed_iff:
  "isAllowed L t \<longleftrightarrow>
     (\<exists>entry \<in> set L. if endsWith entry ''/*'' then (\<exists>r. t = slice_to_neg entry 2 @ r) else t = entry)"
  by (simp add: isAllowed_def some_iff type_matches_def startsWith_iff)

lemma fileFilter_examples:
  "isAllowed [''video/*'', ''application/pdf''] ''video/mp4''
   \<and> \<not> isAllowed [''video/*'', ''application/pdf''] ''image/gif''
   \<and> isAllowed [''video/*'', ''application/pdf''] ''application/pdf''"
  by (simp add: isAllowed_def type_matches_def eval_strings)

text \<open>
  C1: the type filter accepts a type if and only if it equals an entry of the allow-list or
  an entry ending in \<open>/*\<close> has the type's prefix up to and including the slash. The code
  departs from this: with the allow-list \<open>video/*\<close>, \<open>application/pdf\<close> it accepts the
  type \<open>videogame/x-rom\<close>, which is outside the \<open>video/\<close> family and which the statement
  of the specification rejects.
\<close>

theorem fileFilter_accepts_outside_family:
  "fileFilter
     \<lparr>nodeEnv = ''production'', bucketName = ''uploads'', maxFileSize = ''100MB'',
      allowedFileTypes = [''video/*'', ''application/pdf''], presignedUrl_expiry = 3600\<rparr>
     ''videogame/x-rom'' = Inr True
   \<and> accepted_spec [''video/*'', ''application/pdf''] ''videogame/x-rom'' = False"
  by (simp add: fileFilter_def isAllowed_def type_matches_def eval_strings
      accepted_spec_def entry_accepts_spec_def upto_slash_def)

section \<open>The size limit\<close>








lemma foldl_digits:
  "foldl (\<lambda>a c. 10 * a + digit_val c) x ds =
     x * 10 ^ length ds + foldl (\<lambda>a c. 10 * a + digit_val c) 0 ds"
proof (induction ds arbitrary: x)
  case Nil
  show ?case by simp
next
  case (Cons c cs)
  have "foldl (\<lambda>a c. 10 * a + digit_val c) x (c # cs) =
          foldl (\<lambda>a c. 10 * a + digit_val c) (10 * x + digit_val c) cs"
    by simp
  also have "\<dots> = (10 * x + digit_val c) * 10 ^ length cs
                  + foldl (\<lambda>a c. 10 * a + digit_val c) 0 cs"
    by (rule Cons.IH)
  finally have l: "foldl (\<lambda>a c. 10 * a + digit_val c) x (c # cs) =
      (10 * x + digit_val c) * 10 ^ length cs + foldl (\<lambda>a c. 10 * a + digit_val c) 0 cs" .
  have "foldl (\<lambda>a c. 10 * a + digit_val c) 0 (c # cs) =
          foldl (\<lambda>a c. 10 * a + digit_val c) (digit_val c) cs"
    by simp
  also have "\<dots> = digit_val c * 10 ^ length cs + foldl (\<lambda>a c. 10 * a + digit_val c) 0 cs"
    by (rule Cons.IH)
  finally have r: "foldl (\<lambda>a c. 10 * a + digit_val c) 0 (c # cs) =
      digit_val c * 10 ^ length cs + foldl (\<lambda>a c. 10 * a + digit_val c) 0 cs" .
  show ?case unfolding l r by (simp add: algebra_simps)
qed

lemma digits_val_append:
  "digits_val 10 (ip @ fp) = digits_val 10 ip * 10 ^ length fp + digits_val 10 fp"
  unfolding digits_val_def foldl_append by (rule foldl_digits)

subsection \<open>Rounding\<close>





















subsection \<open>The parsed limit\<close>





section \<open>The upload error middleware\<close>

text \<open>
  C10: for an error that is not a multer error, \<open>handleMulterError\<close> answers 400 with code
  \<open>INVALID_FILE_TYPE\<close> when the message contains \<open>File type\<close> (whatever raised it), and
  otherwise passes the error unchanged to the next error handler and writes no response.
\<close>

theorem handleMulterError_non_multer:
  "\<not> is_multer error \<Longrightarrow>
     (if includes_str (message error) ''File type''
      then handleMulterError c error w =
             (No_next, send 400 (JObj
               [(''success'', JBool False),
                (''error'', JStr ''Invalid file type''),
                (''message'', JStr (message error)),
                (''code'', JStr ''INVALID_FILE_TYPE'')]) w)
      else handleMulterError c error w = (Next error, w))"
  by (simp add: handleMulterError_def)

theorem handleMulterError_non_multer_witness:
  "\<not> is_multer (Error ''Upload failed: File type probe timed out'')
   \<and> handleMulterError default_config (Error ''Upload failed: File type probe timed out'') fresh =
       (No_next, send 400 (JObj
          [(''success'', JBool False),
           (''error'', JStr ''Invalid file type''),
           (''message'', JStr ''Upload failed: File type probe timed out''),
           (''code'', JStr ''INVALID_FILE_TYPE'')]) fresh)
   \<and> \<not> is_multer (Error ''Upload failed: socket hang up'')
   \<and> handleMulterError default_config (Error ''Upload failed: socket hang up'') fresh =
       (Next (Error ''Upload failed: socket hang up''), fresh)"
  using handleMulterError_non_multer
      [of "Error ''Upload failed: File type probe timed out''" default_config fresh]
    handleMulterError_non_multer [of "Error ''Upload failed: socket hang up''" default_config fresh]
  by (simp add: Error_def startsWith_def)

section \<open>The final error handler\<close>

lemma calls_send [simp]: "calls (send s b w) = calls w"
  by (simp add: send_def)

lemma sent_send [simp]: "sent (send s b w) = sent w @ [\<lparr>status = s, body = b\<rparr>]"
  by (simp add: send_def)

lemma errorHandler_sent:
  "sent (errorHandler c clk err req w) =
     sent w @ [last (sent (errorHandler c clk err req w))]"
  by (simp add: errorHandler_def send_def Let_def split: prod.splits)


text \<open>
  C6 (as amended): an error named \<open>ValidationError\<close> is answered 400
  \<open>VALIDATION_ERROR\<close> and one named \<open>UnauthorizedError\<close> 401 \<open>UNAUTHORIZED\<close>, whatever
  the message. Of the others, one whose message contains \<open>ECONNREFUSED\<close> is answered 503
  \<open>SERVICE_UNAVAILABLE\<close>; otherwise one whose message contains \<open>NoSuchBucket\<close> 500
  \<open>BUCKET_NOT_FOUND\<close>; otherwise one whose message contains \<open>AccessDenied\<close> 403
  \<open>ACCESS_DENIED\<close>; and an error of none of these kinds is answered with its own status
  code when it has a non-zero one and 500 otherwise, its own code when it has a non-empty
  one and \<open>INTERNAL_ERROR\<close> otherwise, and its message verbatim (\<open>Internal Server Error\<close>
  when the message is empty). The handler writes exactly one response.
\<close>

theorem errorHandler_mapping:
  "(name err = ''ValidationError'' \<longrightarrow>
      status (last (sent (errorHandler c clk err req w))) = 400
      \<and> field ''code'' (body (last (sent (errorHandler c clk err req w)))) = Some (JStr ''VALIDATION_ERROR''))
   \<and> (name err = ''UnauthorizedError'' \<longrightarrow>
      status (last (sent (errorHandler c clk err req w))) = 401
      \<and> field ''code'' (body (last (sent (errorHandler c clk err req w)))) = Some (JStr ''UNAUTHORIZED''))
   \<and> (name err \<noteq> ''ValidationError'' \<and> name err \<noteq> ''UnauthorizedError'' \<longrightarrow>
       (includes_str (message err) ''ECONNREFUSED'' \<longrightarrow>
          status (last (sent (errorHandler c clk err req w))) = 503
          \<and> field ''code'' (body (last (sent (errorHandler c clk err req w)))) = Some (JStr ''SERVICE_UNAVAILABLE''))
       \<and> (\<not> includes_str (message err) ''ECONNREFUSED'' \<and> includes_str (message err) ''NoSuchBucket'' \<longrightarrow>
          status (last (sent (errorHandler c clk err req w))) = 500
          \<and> field ''code'' (body (last (sent (errorHandler c clk err req w)))) = Some (JStr ''BUCKET_NOT_FOUND''))
       \<and> (\<not> includes_str (message err) ''ECONNREFUSED'' \<and> \<not> includes_str (message err) ''NoSuchBucket''
           \<and> includes_str (message err) ''AccessDenied'' \<longrightarrow>
          status (last (sent (errorHandler c clk err req w))) = 403
          \<and> field ''code'' (body (last (sent (errorHandler c clk err req w)))) = Some (JStr ''ACCESS_DENIED''))
       \<and> (\<not> includes_str (message err) ''ECONNREFUSED'' \<and> \<not> includes_str (message err) ''NoSuchBucket''
           \<and> \<not> includes_str (message err) ''AccessDenied'' \<longrightarrow>
          status (last (sent (errorHandler c clk err req w))) = num_or (statusCode err) 500
          \<and> field ''code'' (body (last (sent (errorHandler c clk err req w))))
              = Some (JStr (str_or (code err) ''INTERNAL_ERROR''))
          \<and> field ''error'' (body (last (sent (errorHandler c clk err req w))))
              = Some (JStr (str_or (Some (message err)) ''Internal Server Error''))))
   \<and> sent (errorHandler c clk err req w) = sent w @ [last (sent (errorHandler c clk err req w))]"
  by (simp add: errorHandler_def send_def Let_def field_def)


theorem errorHandler_mapping_witness:
  "name ((Error ''Validation failed'')\<lparr>name := ''ValidationError''\<rparr>) = ''ValidationError''
   \<and> status (last (sent (errorHandler default_config (clock (env_of []))
          ((Error ''Validation failed'')\<lparr>name := ''ValidationError''\<rparr>)
          (get_request ''/api/files/list'') fresh))) = 400
   \<and> name ((Error ''Unauthorized'')\<lparr>name := ''UnauthorizedError''\<rparr>) = ''UnauthorizedError''
   \<and> status (last (sent (errorHandler default_config (clock (env_of []))
          ((Error ''Unauthorized'')\<lparr>name := ''UnauthorizedError''\<rparr>)
          (get_request ''/api/files/list'') fresh))) = 401
   \<and> name (Error ''Upload failed: connect ECONNREFUSED 127.0.0.1:9000'') \<noteq> ''ValidationError''
   \<and> name (Error ''Upload failed: connect ECONNREFUSED 127.0.0.1:9000'') \<noteq> ''UnauthorizedError''
   \<and> includes_str (message (Error ''Upload failed: connect ECONNREFUSED 127.0.0.1:9000'')) ''ECONNREFUSED''
   \<and> status (last (sent (errorHandler default_config (clock (env_of []))
          (Error ''Upload failed: connect ECONNREFUSED 127.0.0.1:9000'')
          (get_request ''/api/files/list'') fresh))) = 503
   \<and> \<not> includes_str (message (Error ''List failed: NoSuchBucket'')) ''ECONNREFUSED''
   \<and> includes_str (message (Error ''List failed: NoSuchBucket'')) ''NoSuchBucket''
   \<and> field ''code'' (body (last (sent (errorHandler default_config (clock (env_of []))
          (Error ''List failed: NoSuchBucket'') (get_request ''/api/files/list'') fresh))))
        = Some (JStr ''BUCKET_NOT_FOUND'')
   \<and> \<not> includes_str (message (Error ''List failed: AccessDenied'')) ''ECONNREFUSED''
   \<and> \<not> includes_str (message (Error ''List failed: AccessDenied'')) ''NoSuchBucket''
   \<and> includes_str (message (Error ''List failed: AccessDenied'')) ''AccessDenied''
   \<and> status (last (sent (errorHandler default_config (clock (env_of []))
          (Error ''List failed: AccessDenied'') (get_request ''/api/files/list'') fresh))) = 403
   \<and> \<not> includes_str (message (Error ''Something went wrong'')) ''ECONNREFUSED''
   \<and> \<not> includes_str (message (Error ''Something went wrong'')) ''NoSuchBucket''
   \<and> \<not> includes_str (message (Error ''Something went wrong'')) ''AccessDenied''
   \<and> status (last (sent (errorHandler default_config (clock (env_of []))
          (Error ''Something went wrong'') (get_request ''/api/files/list'') fresh))) = 500
   \<and> field ''code'' (body (last (sent (errorHandler default_config (clock (env_of []))
          (Error ''Something went wrong'') (get_request ''/api/files/list'') fresh))))
        = Some (JStr ''INTERNAL_ERROR'')
   \<and> field ''error'' (body (last (sent (errorHandler default_config (clock (env_of []))
          (Error ''Something went wrong'') (get_request ''/api/files/list'') fresh))))
        = Some (JStr ''Something went wrong'')"
  using errorHandler_mapping [of "(Error ''Validation failed'')\<lparr>name := ''ValidationError''\<rparr>"
      default_config "clock (env_of [])" "get_request ''/api/files/list''" fresh]
    errorHandler_mapping [of "(Error ''Unauthorized'')\<lparr>name := ''UnauthorizedError''\<rparr>"
      default_config "clock (env_of [])" "get_request ''/api/files/list''" fresh]
    errorHandler_mapping [of "Error ''Upload failed: connect ECONNREFUSED 127.0.0.1:9000''"
      default_config "clock (env_of [])" "get_request ''/api/files/list''" fresh]
    errorHandler_mapping [of "Error ''List failed: NoSuchBucket''"
      default_config "clock (env_of [])" "get_request ''/api/files/list''" fresh]
    errorHandler_mapping [of "Error ''List failed: AccessDenied''"
      default_config "clock (env_of [])" "get_request ''/api/files/list''" fresh]
    errorHandler_mapping [of "Error ''Something went wrong''"
      default_config "clock (env_of [])" "get_request ''/api/files/list''" fresh]
  by (simp add: Error_def startsWith_def num_or_def str_or_def)

text \<open>
  C6 as stated fails: the error of the handler's own test, with message \<open>Bad request\<close>,
  status code 400 and code \<open>BAD_REQUEST\<close>, is of none of the recognised kinds and is
  answered 400 \<open>BAD_REQUEST\<close>, not 500 \<open>INTERNAL_ERROR\<close>.
\<close>

theorem errorHandler_custom_status:
  "name custom_error = ''Error''
   \<and> includes_str (message custom_error) ''ECONNREFUSED'' = False
   \<and> includes_str (message custom_error) ''NoSuchBucket'' = False
   \<and> includes_str (message custom_error) ''AccessDenied'' = False
   \<and> status (last (sent (errorHandler default_config (clock (env_of [])) custom_error
          (get_request ''/api/files/list'') fresh))) = 400
   \<and> field ''code'' (body (last (sent (errorHandler default_config (clock (env_of [])) custom_error
          (get_request ''/api/files/list'') fresh)))) = Some (JStr ''BAD_REQUEST'')"
  by (simp add: custom_error_def Error_def startsWith_def errorHandler_def send_def Let_def
      field_def num_or_def str_or_def fresh_def)


section \<open>One response for each upload request\<close>












section \<open>Failure bodies\<close>




text \<open>The bodies that \<open>handleMulterError\<close> writes have no \<open>timestamp\<close> field, as its own
  test expects and unlike the example body of the README.\<close>

lemma decode_error_body_without_timestamp:
  "is_multer err \<or> includes_str (message err) ''File type'' \<Longrightarrow>
     field ''timestamp'' (body (last (sent (on_upload_error c clk err req w)))) = None"
  by (auto simp: on_upload_error_def handleMulterError_def field_def)


section \<open>Object keys\<close>

lemma last_component_no_slash: "CHR ''/'' \<notin> set (last_component p)"
  unfolding last_component_def by (auto dest: set_takeWhileD)

lemma last_component_id: "CHR ''/'' \<notin> set p \<Longrightarrow> last_component p = p"
proof -
  assume a: "CHR ''/'' \<notin> set p"
  then have "\<And>x. x \<in> set (rev p) \<Longrightarrow> x \<noteq> CHR ''/''" by auto
  then have d: "dropWhile (\<lambda>c. c = CHR ''/'') (rev p) = rev p"
    by (cases "rev p") auto
  have t: "takeWhile (\<lambda>c. c \<noteq> CHR ''/'') (rev p) = rev p"
    using a by (auto simp: takeWhile_eq_all_conv)
  show ?thesis unfolding last_component_def d t by simp
qed

lemma split_at_last_dot:
  assumes "CHR ''.'' \<in> set c"
  shows "\<exists>rest. c = rest @ CHR ''.'' # rev (takeWhile (\<lambda>x. x \<noteq> CHR ''.'') (rev c))"
proof -
  define r where "r = takeWhile (\<lambda>x. x \<noteq> CHR ''.'') (rev c)"
  define d where "d = dropWhile (\<lambda>x. x \<noteq> CHR ''.'') (rev c)"
  have rc: "rev c = r @ d" by (simp add: r_def d_def)
  have "d \<noteq> []" using assms by (auto simp: d_def dropWhile_eq_Nil_conv)
  moreover have "d \<noteq> [] \<Longrightarrow> hd d = CHR ''.''"
    unfolding d_def using hd_dropWhile [of "\<lambda>x. x \<noteq> CHR ''.''" "rev c"] by auto
  ultimately obtain t where "d = CHR ''.'' # t" by (cases d) auto
  with rc have "rev c = r @ CHR ''.'' # t" by simp
  then have "rev (rev c) = rev (r @ CHR ''.'' # t)" by simp
  then have "c = rev t @ CHR ''.'' # rev r" by simp
  then show ?thesis unfolding r_def by blast
qed

lemma no_dot_in_tail: "CHR ''.'' \<notin> set (rev (takeWhile (\<lambda>x. x \<noteq> CHR ''.'') xs))"
  by (auto dest: set_takeWhileD)

lemma extname_cases:
  "if CHR ''.'' \<in> set (tl (last_component p)) \<and> last_component p \<noteq> ''..''
   then (\<exists>rest r. rest \<noteq> [] \<and> CHR ''.'' \<notin> set r \<and> extname p = CHR ''.'' # r
           \<and> last_component p = rest @ extname p)
   else extname p = []"
proof -
  define c where "c = last_component p"
  define t where "t = takeWhile (\<lambda>x. x \<noteq> CHR ''.'') (rev c)"
  have nd: "CHR ''.'' \<notin> set (rev t)" unfolding t_def by (rule no_dot_in_tail)
  have ex: "extname p =
     (if CHR ''.'' \<in> set c then
        (if Suc (length t) = length c then [] else if c = ''..'' then [] else CHR ''.'' # rev t)
      else [])"
    unfolding extname_def Let_def c_def t_def ..
  show ?thesis
  proof (cases "CHR ''.'' \<in> set c")
    case False
    then have "CHR ''.'' \<notin> set (tl c)" by (cases c) auto
    then show ?thesis unfolding c_def [symmetric] ex using False by simp
  next
    case True
    from split_at_last_dot [OF True] obtain rest where c: "c = rest @ CHR ''.'' # rev t"
      unfolding t_def by blast
    have lc: "length c = length rest + Suc (length t)"
      using arg_cong [OF c, of length] by simp
    show ?thesis
    proof (cases "rest = []")
      case r: True
      have "tl c = rev t" using arg_cong [OF c, of tl] r by simp
      then have "CHR ''.'' \<notin> set (tl c)" using nd by simp
      moreover have "Suc (length t) = length c" using lc r by simp
      ultimately show ?thesis unfolding c_def [symmetric] ex using True by simp
    next
      case r: False
      then obtain x xs where rest: "rest = x # xs" by (cases rest) auto
      have "tl c = xs @ CHR ''.'' # rev t" using arg_cong [OF c, of tl] rest by simp
      then have tl: "CHR ''.'' \<in> set (tl c)" by simp
      have len: "Suc (length t) \<noteq> length c" using lc r by simp
      show ?thesis
      proof (cases "c = ''..''")
        case True
        then show ?thesis unfolding c_def [symmetric] ex by simp
      next
        case ne: False
        have e: "extname p = CHR ''.'' # rev t"
          unfolding ex using True len ne by simp
        have "rest \<noteq> [] \<and> CHR ''.'' \<notin> set (rev t) \<and> extname p = CHR ''.'' # rev t
               \<and> c = rest @ extname p"
          using r nd e c by simp
        then have "\<exists>rest r. rest \<noteq> [] \<and> CHR ''.'' \<notin> set r \<and> extname p = CHR ''.'' # r
           \<and> c = rest @ extname p" by blast
        then show ?thesis unfolding c_def [symmetric] using tl ne by simp
      qed
    qed
  qed
qed

lemma basename_extname: "basename p (extname p) @ extname p = last_component p"
proof (cases "extname p = []")
  case True
  then show ?thesis by (simp add: basename_def)
next
  case False
  define cond where
    "cond = (CHR ''.'' \<in> set (tl (last_component p)) \<and> last_component p \<noteq> ''..'')"
  have ec: "if cond
   then (\<exists>rest r. rest \<noteq> [] \<and> CHR ''.'' \<notin> set r \<and> extname p = CHR ''.'' # r
           \<and> last_component p = rest @ extname p)
   else extname p = []"
    unfolding cond_def by (rule extname_cases)
  have cond using ec False by (cases cond) simp_all
  with ec have "\<exists>rest r. rest \<noteq> [] \<and> CHR ''.'' \<notin> set r \<and> extname p = CHR ''.'' # r
           \<and> last_component p = rest @ extname p" by simp
  then obtain rest r where
    h: "rest \<noteq> []" "last_component p = rest @ extname p"
    by blast
  have lc: "length (last_component p) = length rest + length (extname p)"
    using arg_cong [OF h(2), of length] by simp
  have lr: "0 < length rest" using h(1) by simp
  have ne_c: "extname p \<noteq> last_component p"
  proof
    assume "extname p = last_component p"
    then have "length (extname p) = length (last_component p)" by simp
    with lc lr show False by simp
  qed
  have ne_p: "extname p \<noteq> p"
  proof
    assume eq: "extname p = p"
    have "set (extname p) \<subseteq> set (last_component p)"
      using arg_cong [OF h(2), of set] by auto
    then have "CHR ''/'' \<notin> set (extname p)"
      using last_component_no_slash [of p] by blast
    with eq have "CHR ''/'' \<notin> set p" by simp
    then have "last_component p = p" by (rule last_component_id)
    with eq ne_c show False by simp
  qed
  have dr: "drop (length (last_component p) - length (extname p)) (last_component p) = extname p"
    using arg_cong [OF h(2), of "drop (length rest)"] lc by simp
  have tk: "take (length (last_component p) - length (extname p)) (last_component p) = rest"
    using arg_cong [OF h(2), of "take (length rest)"] lc by simp
  have ew: "endsWith (last_component p) (extname p)"
    unfolding endsWith_def using lc dr by simp
  have "basename p (extname p) = rest"
    unfolding basename_def Let_def using False ne_c ne_p ew tk by simp
  then show ?thesis using h(2) by simp
qed

lemma digit_char_digit: "d < 10 \<Longrightarrow> is_digit (digit_char d)"
proof -
  assume "d < 10"
  then have "d \<in> {0, 1, 2, 3, 4, 5, 6, 7, 8, 9}" by auto
  then show ?thesis by (auto simp: digit_char_def is_digit_def)
qed

lemma string_of_nat_digits: "list_all is_digit (string_of_nat n) \<and> string_of_nat n \<noteq> []"
proof (induction n rule: string_of_nat.induct)
  case (1 n)
  show ?case
  proof (cases "n < 10")
    case True
    then show ?thesis by (simp add: string_of_nat_small digit_char_digit)
  next
    case False
    then show ?thesis using 1 by (simp add: string_of_nat_large digit_char_digit)
  qed
qed

lemma lower_hex_not_dash: "is_lower_hex c \<Longrightarrow> c \<noteq> CHR ''-''"
  by (auto simp: is_lower_hex_def)

lemma uuid_first_segment:
  assumes "is_uuid u"
  shows "takeWhile (\<lambda>c. c \<noteq> CHR ''-'') u = take 8 u"
proof -
  from assms have len: "length u = 36" and hex: "list_all is_lower_hex (take 8 u)"
    and dash: "u ! 8 = CHR ''-''" by (simp_all add: is_uuid_def)
  have u: "u = take 8 u @ drop 8 u" by simp
  have nd: "\<And>x. x \<in> set (take 8 u) \<Longrightarrow> x \<noteq> CHR ''-''"
    using hex by (auto simp: list_all_iff lower_hex_not_dash)
  have "drop 8 u = u ! 8 # drop 9 u" using Cons_nth_drop_Suc [of 8 u] len by simp
  then have t: "takeWhile (\<lambda>c. c \<noteq> CHR ''-'') (drop 8 u) = []" using dash by simp
  have "takeWhile (\<lambda>c. c \<noteq> CHR ''-'') (take 8 u @ drop 8 u)
          = take 8 u @ takeWhile (\<lambda>c. c \<noteq> CHR ''-'') (drop 8 u)"
    by (rule takeWhile_append2) (use nd in blast)
  then show ?thesis by (simp add: t)
qed

lemma endsWith_append: "endsWith (xs @ ys) ys"
  by (simp add: endsWith_def)

lemma uploadFile_calls:
  "calls (snd (uploadFile e f customPath w)) =
     calls w @ [PutObject (bucketName (cfg e))
                 (objectName_of customPath
                    (generateUniqueFilename (originalname f) (clock e (reads w)) (uuidv4 e (draws w))))
                 (buffer f) (fsize f)
                 [(''Content-Type'', JStr (mimetype f)),
                  (''Original-Name'', JStr (originalname f)),
                  (''Upload-Date'', JDate (int (clock e (Suc (reads w)))))]]"
  by (simp add: uploadFile_def Let_def Date_now_def draw_uuid_def issue_def
      split: option.splits prod.splits)

text \<open>
  C3 (as amended): for every original file name and prefix, the object key is
  \<open>base_<timestamp>_<first 8 hexadecimal digits of the uuid><extension>\<close>, with the prefix
  and a slash in front when the prefix is not empty. Base and extension split the last path
  component of the file name (the file name itself when it holds no slash) at its last dot,
  except that the extension is empty and the base the whole component when the component
  has no dot after its first character or is \<open>..\<close>. The key ends with the extension, and
  it is the key under which \<open>uploadFile\<close> stores the object.
\<close>

theorem object_key:
  "is_uuid uuid4 \<Longrightarrow>
     objectName_of customPath (generateUniqueFilename originalName timestamp uuid4)
       = (if customPath = [] then [] else customPath @ ''/'')
           @ basename originalName (extname originalName)
           @ ''_'' @ string_of_nat timestamp @ ''_'' @ take 8 uuid4 @ extname originalName
     \<and> length (take 8 uuid4) = 8 \<and> list_all is_lower_hex (take 8 uuid4)
     \<and> list_all is_digit (string_of_nat timestamp) \<and> string_of_nat timestamp \<noteq> []
     \<and> basename originalName (extname originalName) @ extname originalName
         = last_component originalName
     \<and> (if CHR ''.'' \<in> set (tl (last_component originalName)) \<and> last_component originalName \<noteq> ''..''
         then (\<exists>r. extname originalName = CHR ''.'' # r \<and> CHR ''.'' \<notin> set r)
         else extname originalName = [])
     \<and> (CHR ''/'' \<notin> set originalName \<longrightarrow> last_component originalName = originalName)
     \<and> endsWith (objectName_of customPath (generateUniqueFilename originalName timestamp uuid4))
           (extname originalName)
     \<and> calls (snd (uploadFile e f customPath w)) =
         calls w @ [PutObject (bucketName (cfg e))
                     (objectName_of customPath
                        (generateUniqueFilename (originalname f) (clock e (reads w))
                           (uuidv4 e (draws w))))
                     (buffer f) (fsize f)
                     [(''Content-Type'', JStr (mimetype f)),
                      (''Original-Name'', JStr (originalname f)),
                      (''Upload-Date'', JDate (int (clock e (Suc (reads w)))))]]"
proof -
  assume u: "is_uuid uuid4"
  have seg: "takeWhile (\<lambda>c. c \<noteq> CHR ''-'') uuid4 = take 8 uuid4"
    by (rule uuid_first_segment [OF u])
  have key: "objectName_of customPath (generateUniqueFilename originalName timestamp uuid4)
       = (if customPath = [] then [] else customPath @ ''/'')
           @ basename originalName (extname originalName)
           @ ''_'' @ string_of_nat timestamp @ ''_'' @ take 8 uuid4 @ extname originalName"
    by (simp add: objectName_of_def generateUniqueFilename_def Let_def seg)
  have hx: "length (take 8 uuid4) = 8 \<and> list_all is_lower_hex (take 8 uuid4)"
    using u by (simp add: is_uuid_def)
  have ext: "if CHR ''.'' \<in> set (tl (last_component originalName)) \<and> last_component originalName \<noteq> ''..''
         then (\<exists>r. extname originalName = CHR ''.'' # r \<and> CHR ''.'' \<notin> set r)
         else extname originalName = []"
  proof (cases "CHR ''.'' \<in> set (tl (last_component originalName)) \<and> last_component originalName \<noteq> ''..''")
    case True
    with extname_cases [of originalName]
    have "\<exists>rest r. rest \<noteq> [] \<and> CHR ''.'' \<notin> set r \<and> extname originalName = CHR ''.'' # r
           \<and> last_component originalName = rest @ extname originalName" by simp
    then have "\<exists>r. extname originalName = CHR ''.'' # r \<and> CHR ''.'' \<notin> set r" by blast
    with True show ?thesis by simp
  next
    case False
    with extname_cases [of originalName] have "extname originalName = []" by simp
    with False show ?thesis by simp
  qed
  have ends: "endsWith (objectName_of customPath (generateUniqueFilename originalName timestamp uuid4))
           (extname originalName)"
  proof -
    have "objectName_of customPath (generateUniqueFilename originalName timestamp uuid4)
       = ((if customPath = [] then [] else customPath @ ''/'')
           @ basename originalName (extname originalName)
           @ ''_'' @ string_of_nat timestamp @ ''_'' @ take 8 uuid4) @ extname originalName"
      unfolding key by simp
    then show ?thesis by (simp only: endsWith_append)
  qed
  show ?thesis
    by (intro conjI key conjunct1 [OF hx] conjunct2 [OF hx]
        conjunct1 [OF string_of_nat_digits] conjunct2 [OF string_of_nat_digits]
        basename_extname ext ends impI last_component_id uploadFile_calls)
qed

theorem object_key_witness:
  "is_uuid ''3f2a9c1e-7b4d-4e8a-9c0f-1a2b3c4d5e6f''
   \<and> objectName_of ''videos/2024''
        (generateUniqueFilename ''my.test.file.txt'' 1700000000123 ''3f2a9c1e-7b4d-4e8a-9c0f-1a2b3c4d5e6f'')
      = ''videos/2024/my.test.file_1700000000123_3f2a9c1e.txt''
   \<and> extname ''my.test.file.txt'' = ''.txt''
   \<and> basename ''my.test.file.txt'' ''.txt'' = ''my.test.file''
   \<and> CHR ''/'' \<notin> set ''my.test.file.txt''
   \<and> last_component ''my.test.file.txt'' = ''my.test.file.txt''
   \<and> objectName_of [] (generateUniqueFilename ''README'' 1700000000123 ''3f2a9c1e-7b4d-4e8a-9c0f-1a2b3c4d5e6f'')
      = ''README_1700000000123_3f2a9c1e''"
proof -
  have u: "is_uuid ''3f2a9c1e-7b4d-4e8a-9c0f-1a2b3c4d5e6f''"
    by (simp add: is_uuid_def is_lower_hex_def)
  have e1: "extname ''my.test.file.txt'' = ''.txt''"
    by (simp add: extname_def last_component_def Let_def)
  have b1: "basename ''my.test.file.txt'' ''.txt'' = ''my.test.file''"
    by (simp add: basename_def last_component_def Let_def endsWith_def)
  have e2: "extname ''README'' = []"
    by (simp add: extname_def last_component_def Let_def)
  have b2: "basename ''README'' [] = ''README''"
    by (simp add: basename_def last_component_def Let_def)
  have t: "string_of_nat 1700000000123 = ''1700000000123''"
    by (simp add: string_of_nat_small string_of_nat_large digit_char_def)
  show ?thesis
    using u
      object_key [OF u, where customPath = "''videos/2024''" and originalName = "''my.test.file.txt''"
        and timestamp = 1700000000123]
      object_key [OF u, where customPath = "[]" and originalName = "''README''"
        and timestamp = 1700000000123]
    by (simp add: e1 b1 e2 b2 t)
qed

text \<open>
  C3 as stated fails: for the file name \<open>.bashrc\<close> the code takes the whole name as the
  base and no extension, where splitting at the last dot gives an empty base and the
  extension \<open>.bashrc\<close>.
\<close>

theorem dotfile_key:
  "objectName_of [] (generateUniqueFilename ''.bashrc'' 1700000000123 ''3f2a9c1e-7b4d-4e8a-9c0f-1a2b3c4d5e6f'')
     = ''.bashrc_1700000000123_3f2a9c1e''
   \<and> object_key_spec ''.bashrc'' [] 1700000000123 ''3f2a9c1e'' = ''_1700000000123_3f2a9c1e.bashrc''"
proof -
  have t: "string_of_nat 1700000000123 = ''1700000000123''"
    by (simp add: string_of_nat_small string_of_nat_large digit_char_def)
  have e: "extname ''.bashrc'' = []"
    by (simp add: extname_def last_component_def Let_def)
  have b: "basename ''.bashrc'' [] = ''.bashrc''"
    by (simp add: basename_def last_component_def Let_def)
  show ?thesis
    by (simp add: objectName_of_def generateUniqueFilename_def Let_def e b t
        object_key_spec_def split_last_dot_def)
qed


section \<open>Listing\<close>

lemma foldl_on_data:
  "foldl (on_data n) acc items = acc @ map entry_of (take (nat (n - int (length acc))) items)"
proof (induction items arbitrary: acc)
  case Nil
  then show ?case by simp
next
  case (Cons x xs)
  show ?case
  proof (cases "int (length acc) < n")
    case True
    then have "nat (n - int (length acc)) = Suc (nat (n - int (length (acc @ [entry_of x]))))"
      by simp
    then show ?thesis using True Cons.IH [of "acc @ [entry_of x]"]
      by (simp add: on_data_def)
  next
    case False
    then have "nat (n - int (length acc)) = 0" by simp
    then show ?thesis using False Cons.IH [of acc] by (simp add: on_data_def)
  qed
qed

lemma listFiles_ok:
  assumes "listObjects (client e) (bucketName (cfg e)) (case pa of None \<Rightarrow> [] | Some p \<Rightarrow> p) True
             = Inr (items, None)"
  shows "listFiles e pa ma w =
     (Inr [(''success'', JBool True),
           (''files'', JArr (map entry_of (take (nat (case ma of None \<Rightarrow> 1000 | Some n \<Rightarrow> n)) items))),
           (''count'', JNum (int (length (take (nat (case ma of None \<Rightarrow> 1000 | Some n \<Rightarrow> n)) items))))],
      issue (ListObjects (bucketName (cfg e)) (case pa of None \<Rightarrow> [] | Some p \<Rightarrow> p) True) w)"
  using assms by (simp add: listFiles_def Let_def foldl_on_data)

text \<open>
  C7 (as amended): when the store's listing ends without error, the list operation answers
  with the entries and a count equal to their number; each entry carries name, size,
  lastModified and etag. With a limit in the query that reads as an integer \<open>n \<ge> 1\<close>
  there are at most \<open>n\<close> entries; with no limit, or one that reads as \<open>0\<close> or as no
  number, the limit is 1000; with a negative limit there are no entries.
\<close>

theorem list_limit:
  "listObjects (client e) (bucketName (cfg e)) (str_or (query_prefix req) []) True = Inr (items, None)
   \<Longrightarrow> \<exists>objects.
         listFiles_handler e req w =
           (No_next, send 200 (list_body objects)
              (issue (ListObjects (bucketName (cfg e)) (str_or (query_prefix req) []) True) w))
         \<and> (\<forall>n. parseInt_opt (query_limit req) = Some n \<and> 1 \<le> n \<longrightarrow> int (length objects) \<le> n)
         \<and> (\<forall>n. parseInt_opt (query_limit req) = Some n \<and> n < 0 \<longrightarrow> objects = [])
         \<and> (parseInt_opt (query_limit req) = None \<longrightarrow> length objects \<le> 1000)
         \<and> (parseInt_opt (query_limit req) = Some 0 \<longrightarrow> length objects \<le> 1000)
         \<and> (\<forall>x \<in> set objects. \<exists>nm sz lm et.
               x = JObj [(''name'', JStr nm), (''size'', JNum sz),
                         (''lastModified'', JDate lm), (''etag'', JStr et)])"
proof -
  assume a: "listObjects (client e) (bucketName (cfg e)) (str_or (query_prefix req) []) True
               = Inr (items, None)"
  define k where "k = nat (num_or (parseInt_opt (query_limit req)) 1000)"
  define objects where "objects = map entry_of (take k items)"
  have h: "listFiles_handler e req w =
           (No_next, send 200 (list_body objects)
              (issue (ListObjects (bucketName (cfg e)) (str_or (query_prefix req) []) True) w))"
    using listFiles_ok [of e "Some (str_or (query_prefix req) [])" items
        "Some (num_or (parseInt_opt (query_limit req)) 1000)" w] a
    by (simp add: listFiles_handler_def Let_def list_body_def objects_def k_def)
  have len: "length objects \<le> k" by (simp add: objects_def)
  have b1: "\<forall>n. parseInt_opt (query_limit req) = Some n \<and> 1 \<le> n \<longrightarrow> int (length objects) \<le> n"
    using len by (auto simp: k_def num_or_def)
  have b2: "\<forall>n. parseInt_opt (query_limit req) = Some n \<and> n < 0 \<longrightarrow> objects = []"
    by (auto simp: objects_def k_def num_or_def)
  have b3: "parseInt_opt (query_limit req) = None \<longrightarrow> length objects \<le> 1000"
    using len by (auto simp: k_def num_or_def)
  have b4: "parseInt_opt (query_limit req) = Some 0 \<longrightarrow> length objects \<le> 1000"
    using len by (auto simp: k_def num_or_def)
  have sh: "\<forall>x \<in> set objects. \<exists>nm sz lm et.
               x = JObj [(''name'', JStr nm), (''size'', JNum sz),
                         (''lastModified'', JDate lm), (''etag'', JStr et)]"
    by (auto simp: objects_def entry_of_def)
  show ?thesis
    by (rule exI [of _ objects]) (intro conjI h b1 b2 b3 b4 sh)
qed

theorem list_limit_witness:
  "listObjects (client (env_of [sample_item, sample_item, sample_item]))
      (bucketName (cfg (env_of [sample_item, sample_item, sample_item])))
      (str_or (query_prefix (list_request ''2'')) []) True
     = Inr ([sample_item, sample_item, sample_item], None)
   \<and> parseInt_opt (query_limit (list_request ''2'')) = Some 2
   \<and> listFiles_handler (env_of [sample_item, sample_item, sample_item]) (list_request ''2'') fresh =
        (No_next, send 200 (list_body [entry_of sample_item, entry_of sample_item])
           (issue (ListObjects ''uploads'' [] True) fresh))
   \<and> parseInt_opt (query_limit (list_request ''-5'')) = Some (- 5)
   \<and> listFiles_handler (env_of [sample_item, sample_item, sample_item]) (list_request ''-5'') fresh =
        (No_next, send 200 (list_body [])
           (issue (ListObjects ''uploads'' [] True) fresh))
   \<and> parseInt_opt (query_limit (get_request ''/api/files/list'')) = None
   \<and> listFiles_handler (env_of [sample_item, sample_item, sample_item])
        (get_request ''/api/files/list'') fresh =
        (No_next, send 200 (list_body [entry_of sample_item, entry_of sample_item, entry_of sample_item])
           (issue (ListObjects ''uploads'' [] True) fresh))
   \<and> parseInt_opt (query_limit (list_request ''0'')) = Some 0
   \<and> listFiles_handler (env_of [sample_item, sample_item, sample_item]) (list_request ''0'') fresh =
        (No_next, send 200 (list_body [entry_of sample_item, entry_of sample_item, entry_of sample_item])
           (issue (ListObjects ''uploads'' [] True) fresh))"
  using list_limit [of "env_of [sample_item, sample_item, sample_item]" "list_request ''2''"
      "[sample_item, sample_item, sample_item]" fresh]
    list_limit [of "env_of [sample_item, sample_item, sample_item]" "list_request ''-5''"
      "[sample_item, sample_item, sample_item]" fresh]
    list_limit [of "env_of [sample_item, sample_item, sample_item]" "get_request ''/api/files/list''"
      "[sample_item, sample_item, sample_item]" fresh]
    list_limit [of "env_of [sample_item, sample_item, sample_item]" "list_request ''0''"
      "[sample_item, sample_item, sample_item]" fresh]
  by (simp add: env_of_def store_of_def list_request_def get_request_def str_or_def
      default_config_def eval_strings listFiles_handler_def listFiles_def Let_def on_data_def
      list_body_def)

text \<open>
  C7 as stated fails for the limit \<open>0\<close>: the handler reads \<open>parseInt(limit) || 1000\<close>, so
  a request with \<open>limit=0\<close> against a store holding one object is answered with one
  entry.
\<close>

theorem list_limit_zero:
  "parseInt_opt (query_limit (list_request ''0'')) = Some 0
   \<and> length (data_files (body (last (sent (snd
        (listFiles_handler (env_of [sample_item]) (list_request ''0'') fresh)))))) = 1"
  by (simp add: env_of_def store_of_def list_request_def get_request_def str_or_def
      default_config_def eval_strings listFiles_handler_def listFiles_def Let_def on_data_def
      data_files_def field_def issue_def fresh_def)


section \<open>Access URLs\<close>








section \<open>Missing and surplus files\<close>

lemma decode_over_limit:
  assumes "length acc \<le> files lims" "files lims \<le> maxCount"
    and "files lims - length acc < length ps"
    and "list_all (acceptable c fld) (take (files lims - length acc) ps)"
  shows "decode_parts c lims fld maxCount ps acc =
           Inl (MulterError ''LIMIT_FILE_COUNT'' ''Too many files'')"
  using assms
proof (induction ps arbitrary: acc)
  case Nil
  then show ?case by simp
next
  case (Cons p ps)
  show ?case
  proof (cases "files lims \<le> length acc")
    case True
    then show ?thesis by simp
  next
    case False
    then obtain k where k: "files lims - length acc = Suc k"
      by (cases "files lims - length acc") auto
    with Cons.prems have ok: "acceptable c fld p" and rest: "list_all (acceptable c fld) (take k ps)"
      by simp_all
    have k': "files lims - length (acc @ [content p]) = k" using k by simp
    have "decode_parts c lims fld maxCount ps (acc @ [content p]) =
            Inl (MulterError ''LIMIT_FILE_COUNT'' ''Too many files'')"
    proof (rule Cons.IH)
      show "length (acc @ [content p]) \<le> files lims" using False by simp
      show "files lims \<le> maxCount" by (rule Cons.prems(2))
      show "files lims - length (acc @ [content p]) < length ps"
        using Cons.prems(3) k by simp
      show "list_all (acceptable c fld) (take (files lims - length (acc @ [content p])) ps)"
        using rest k' by simp
    qed
    moreover have "\<not> maxCount \<le> length acc" using False Cons.prems(2) by simp
    ultimately show ?thesis
      using False ok by (simp add: acceptable_def fileFilter_def)
  qed
qed

lemma fileFilter_error:
  "fileFilter c t = Inl err \<Longrightarrow> \<not> is_multer err \<and> includes_str (message err) ''File type''"
proof -
  assume a: "fileFilter c t = Inl err"
  then have m: "message err = [] @ ''File type'' @
      ('' '' @ t @ '' is not allowed. Allowed types: '' @ join (allowedFileTypes c) '', '')"
    and n: "\<not> is_multer err"
    by (auto simp: fileFilter_def Error_def split: if_splits)
  from m have "\<exists>a b. message err = a @ ''File type'' @ b" by blast
  then show ?thesis using n by (simp add: includes_iff)
qed

lemma decode_surplus_fails:
  assumes "length acc \<le> files lims" "files lims - length acc < length ps"
  shows "\<exists>err. decode_parts c lims fld maxCount ps acc = Inl err
           \<and> (is_multer err \<or> includes_str (message err) ''File type'')"
  using assms
proof (induction ps arbitrary: acc)
  case Nil
  then show ?case by simp
next
  case (Cons p ps)
  show ?case
  proof (cases "fileFilter c (mimetype (content p))")
    case (Inl err)
    then show ?thesis
      using fileFilter_error [OF Inl] by (simp add: MulterError_def)
  next
    case (Inr ok)
    show ?thesis
    proof (cases "files lims \<le> length acc \<or> fieldname p \<noteq> fld \<or> maxCount \<le> length acc \<or> truncated p")
      case True
      then show ?thesis using Inr by (auto simp: MulterError_def)
    next
      case False
      then have "length (acc @ [content p]) \<le> files lims"
        and "files lims - length (acc @ [content p]) < length ps"
        using Cons.prems by auto
      from Cons.IH [OF this] False Inr show ?thesis by simp
    qed
  qed
qed

lemma decode_unacceptable:
  assumes "length acc \<le> files lims" "files lims \<le> maxCount"
    and "\<not> list_all (acceptable c fld) (take (files lims - length acc) ps)"
  shows "\<exists>err. decode_parts c lims fld maxCount ps acc = Inl err
           \<and> (if is_multer err
                then code err = Some ''LIMIT_UNEXPECTED_FILE'' \<or> code err = Some ''LIMIT_FILE_SIZE''
                else includes_str (message err) ''File type'')"
  using assms
proof (induction ps arbitrary: acc)
  case Nil
  then show ?case by simp
next
  case (Cons p ps)
  have nl: "\<not> files lims \<le> length acc"
  proof
    assume "files lims \<le> length acc"
    then have "files lims - length acc = 0" by simp
    with Cons.prems(3) show False by simp
  qed
  then obtain k where k: "files lims - length acc = Suc k"
    by (cases "files lims - length acc") auto
  have nm: "\<not> maxCount \<le> length acc" using nl Cons.prems(2) by simp
  show ?case
  proof (cases "fieldname p = fld")
    case False
    then show ?thesis using nl by (simp add: MulterError_def)
  next
    case fl: True
    show ?thesis
    proof (cases "fileFilter c (mimetype (content p))")
      case (Inl err)
      then show ?thesis using nl nm fl fileFilter_error [OF Inl] by simp
    next
      case (Inr ok)
      then have al: "isAllowed (allowedFileTypes c) (mimetype (content p))"
        by (simp add: fileFilter_def split: if_splits)
      show ?thesis
      proof (cases "truncated p")
        case True
        then show ?thesis using nl nm fl Inr by (simp add: MulterError_def)
      next
        case False
        then have ok: "acceptable c fld p" using fl al by (simp add: acceptable_def)
        have k': "files lims - length (acc @ [content p]) = k" using k by simp
        have rest: "\<not> list_all (acceptable c fld) (take (files lims - length (acc @ [content p])) ps)"
          using Cons.prems(3) ok unfolding k k' by simp
        have le: "length (acc @ [content p]) \<le> files lims" using nl by simp
        from Cons.IH [OF le Cons.prems(2) rest] show ?thesis
          using nl nm fl Inr False by simp
      qed
    qed
  qed
qed

lemma handled_at_decode:
  assumes "is_multer err \<or> includes_str (message err) ''File type''"
  shows "\<exists>b. on_upload_error c clk err req w = send 400 b w"
  using assms by (auto simp: on_upload_error_def handleMulterError_def)

lemma surplus_rejected:
  assumes "11 \<le> length parts"
  shows "\<exists>b. post_upload_multiple e parts req w = send 400 b w"
proof -
  obtain err where d: "decode_parts (cfg e) (upload_limits (cfg e)) ''files'' 10 parts [] = Inl err"
    and k: "is_multer err \<or> includes_str (message err) ''File type''"
    using decode_surplus_fails [of "[]" "upload_limits (cfg e)" parts "cfg e" "''files''" 10] assms
    by (auto simp: upload_limits_def)
  from handled_at_decode [OF k] d show ?thesis by (simp add: post_upload_multiple_def)
qed

text \<open>
  C5 (as amended): \<open>uploadSingle\<close> without a file answers 400 \<open>NO_FILE\<close> and issues no
  call to the store; \<open>uploadMultiple\<close> with no files answers 400 \<open>NO_FILES\<close> and issues
  no call; and a request of 11 or more file parts is rejected while decoding, with status
  400, before the controller runs and with no call to the store. The code is
  \<open>TOO_MANY_FILES\<close> when each of the first ten parts is acceptable on its own (sent under
  the field \<open>files\<close>, of an allowed type, within the size limit); when one of them is not,
  decoding has ended at that part and the code is \<open>UNEXPECTED_FIELD\<close>,
  \<open>INVALID_FILE_TYPE\<close> or \<open>FILE_TOO_LARGE\<close>.
\<close>

theorem no_payload_rejected:
  "(req_file req = None \<longrightarrow>
      uploadSingle e req w =
        (No_next, send 400 (JObj [(''success'', JBool False),
                                  (''error'', JStr ''No file provided''),
                                  (''code'', JStr ''NO_FILE'')]) w)
      \<and> calls (snd (uploadSingle e req w)) = calls w)
   \<and> (req_files req = None \<or> req_files req = Some [] \<longrightarrow>
      uploadMultiple e req w =
        (No_next, send 400 (JObj [(''success'', JBool False),
                                  (''error'', JStr ''No files provided''),
                                  (''code'', JStr ''NO_FILES'')]) w)
      \<and> calls (snd (uploadMultiple e req w)) = calls w)
   \<and> (11 \<le> length parts \<longrightarrow>
      (\<exists>b. post_upload_multiple e parts req w = send 400 b w)
      \<and> calls (post_upload_multiple e parts req w) = calls w)
   \<and> (11 \<le> length parts \<and> list_all (acceptable (cfg e) ''files'') (take 10 parts) \<longrightarrow>
      post_upload_multiple e parts req w = send 400 too_many_files_body w)
   \<and> (11 \<le> length parts \<and> \<not> list_all (acceptable (cfg e) ''files'') (take 10 parts) \<longrightarrow>
      (\<exists>b cd. post_upload_multiple e parts req w = send 400 b w
          \<and> field ''code'' b = Some (JStr cd)
          \<and> cd \<in> set [''UNEXPECTED_FIELD'', ''INVALID_FILE_TYPE'', ''FILE_TOO_LARGE'']))"
proof -
  have a: "uploadSingle e req w =
        (No_next, send 400 (JObj [(''success'', JBool False),
                                  (''error'', JStr ''No file provided''),
                                  (''code'', JStr ''NO_FILE'')]) w)"
    if "req_file req = None"
    using that by (simp add: uploadSingle_def)
  have b: "uploadMultiple e req w =
        (No_next, send 400 (JObj [(''success'', JBool False),
                                  (''error'', JStr ''No files provided''),
                                  (''code'', JStr ''NO_FILES'')]) w)"
    if "req_files req = None \<or> req_files req = Some []"
    using that by (auto simp: uploadMultiple_def)
  have c: "post_upload_multiple e parts req w = send 400 too_many_files_body w"
    if h: "11 \<le> length parts" "list_all (acceptable (cfg e) ''files'') (take 10 parts)"
  proof -
    have "decode_parts (cfg e) (upload_limits (cfg e)) ''files'' 10 parts [] =
            Inl (MulterError ''LIMIT_FILE_COUNT'' ''Too many files'')"
      using h by (intro decode_over_limit) (simp_all add: upload_limits_def)
    then show ?thesis
      by (simp add: post_upload_multiple_def on_upload_error_def handleMulterError_def
          MulterError_def too_many_files_body_def)
  qed
  have d: "(\<exists>b. post_upload_multiple e parts req w = send 400 b w)
      \<and> calls (post_upload_multiple e parts req w) = calls w"
    if "11 \<le> length parts"
    using surplus_rejected [OF that, of e req w] by auto
  have f: "\<exists>b cd. post_upload_multiple e parts req w = send 400 b w
          \<and> field ''code'' b = Some (JStr cd)
          \<and> cd \<in> set [''UNEXPECTED_FIELD'', ''INVALID_FILE_TYPE'', ''FILE_TOO_LARGE'']"
    if h: "\<not> list_all (acceptable (cfg e) ''files'') (take 10 parts)"
  proof -
    obtain err where de: "decode_parts (cfg e) (upload_limits (cfg e)) ''files'' 10 parts [] = Inl err"
      and k: "if is_multer err
              then code err = Some ''LIMIT_UNEXPECTED_FILE'' \<or> code err = Some ''LIMIT_FILE_SIZE''
              else includes_str (message err) ''File type''"
      using decode_unacceptable [of "[]" "upload_limits (cfg e)" 10 "cfg e" "''files''" parts] h
      by (auto simp: upload_limits_def)
    show ?thesis
    proof (cases "is_multer err")
      case True
      with k have "code err = Some ''LIMIT_UNEXPECTED_FILE'' \<or> code err = Some ''LIMIT_FILE_SIZE''"
        by simp
      then show ?thesis
      proof
        assume "code err = Some ''LIMIT_UNEXPECTED_FILE''"
        then have "post_upload_multiple e parts req w =
            send 400 (JObj [(''success'', JBool False),
                            (''error'', JStr ''Unexpected field''),
                            (''message'', JStr ''Unexpected file field''),
                            (''code'', JStr ''UNEXPECTED_FIELD'')]) w"
          using True de
          by (simp add: post_upload_multiple_def on_upload_error_def handleMulterError_def)
        then show ?thesis
          by (intro exI [of _ "JObj [(''success'', JBool False),
                            (''error'', JStr ''Unexpected field''),
                            (''message'', JStr ''Unexpected file field''),
                            (''code'', JStr ''UNEXPECTED_FIELD'')]"] exI [of _ "''UNEXPECTED_FIELD''"])
            (simp add: field_def)
      next
        assume "code err = Some ''LIMIT_FILE_SIZE''"
        then have "post_upload_multiple e parts req w =
            send 400 (JObj [(''success'', JBool False),
                            (''error'', JStr ''File too large''),
                            (''message'', JStr (''Maximum file size is '' @ maxFileSize (cfg e))),
                            (''code'', JStr ''FILE_TOO_LARGE'')]) w"
          using True de
          by (simp add: post_upload_multiple_def on_upload_error_def handleMulterError_def)
        then show ?thesis
          by (intro exI [of _ "JObj [(''success'', JBool False),
                            (''error'', JStr ''File too large''),
                            (''message'', JStr (''Maximum file size is '' @ maxFileSize (cfg e))),
                            (''code'', JStr ''FILE_TOO_LARGE'')]"] exI [of _ "''FILE_TOO_LARGE''"])
            (simp add: field_def)
      qed
    next
      case False
      with k have "includes_str (message err) ''File type''" by simp
      then have "post_upload_multiple e parts req w =
            send 400 (JObj [(''success'', JBool False),
                            (''error'', JStr ''Invalid file type''),
                            (''message'', JStr (message err)),
                            (''code'', JStr ''INVALID_FILE_TYPE'')]) w"
        using False de
        by (simp add: post_upload_multiple_def on_upload_error_def handleMulterError_def)
      then show ?thesis
        by (intro exI [of _ "JObj [(''success'', JBool False),
                            (''error'', JStr ''Invalid file type''),
                            (''message'', JStr (message err)),
                            (''code'', JStr ''INVALID_FILE_TYPE'')]"] exI [of _ "''INVALID_FILE_TYPE''"])
          (simp add: field_def)
    qed
  qed
  show ?thesis
    apply (intro conjI impI)
           apply (erule a)
          apply (simp add: a)
         apply (erule b)
        apply (simp add: b)
       apply (erule d [THEN conjunct1])
      apply (erule d [THEN conjunct2])
     apply (elim conjE, erule (1) c)
    apply (elim conjE, erule f)
    done
qed

theorem no_payload_rejected_witness:
  "req_file (get_request ''/api/files/upload'') = None
   \<and> uploadSingle (env_of []) (get_request ''/api/files/upload'') fresh =
        (No_next, send 400 (JObj [(''success'', JBool False),
                                  (''error'', JStr ''No file provided''),
                                  (''code'', JStr ''NO_FILE'')]) fresh)
   \<and> req_files ((get_request ''/api/files/upload/multiple'')\<lparr>req_files := Some []\<rparr>) = Some []
   \<and> uploadMultiple (env_of []) ((get_request ''/api/files/upload/multiple'')\<lparr>req_files := Some []\<rparr>) fresh =
        (No_next, send 400 (JObj [(''success'', JBool False),
                                  (''error'', JStr ''No files provided''),
                                  (''code'', JStr ''NO_FILES'')]) fresh)
   \<and> 11 \<le> length (replicate 11 sample_part)
   \<and> list_all (acceptable (cfg (env_of [])) ''files'') (take 10 (replicate 11 sample_part))
   \<and> post_upload_multiple (env_of []) (replicate 11 sample_part)
        (get_request ''/api/files/upload/multiple'') fresh = send 400 too_many_files_body fresh
   \<and> calls (post_upload_multiple (env_of []) (replicate 11 sample_part)
        (get_request ''/api/files/upload/multiple'') fresh) = []
   \<and> 11 \<le> length (html_part # replicate 10 sample_part)
   \<and> \<not> list_all (acceptable (cfg (env_of [])) ''files'') (take 10 (html_part # replicate 10 sample_part))
   \<and> (\<exists>b cd. post_upload_multiple (env_of []) (html_part # replicate 10 sample_part)
                 (get_request ''/api/files/upload/multiple'') fresh = send 400 b fresh
          \<and> field ''code'' b = Some (JStr cd)
          \<and> cd \<in> set [''UNEXPECTED_FIELD'', ''INVALID_FILE_TYPE'', ''FILE_TOO_LARGE''])"
proof -
  have ok: "acceptable (cfg (env_of [])) ''files'' sample_part"
    by (simp add: acceptable_def sample_part_def env_of_def default_config_def isAllowed_def
        type_matches_def eval_strings)
  have bad: "\<not> acceptable (cfg (env_of [])) ''files'' html_part"
    by (simp add: acceptable_def html_part_def env_of_def default_config_def isAllowed_def
        type_matches_def eval_strings)
  have all: "list_all (acceptable (cfg (env_of [])) ''files'') (take 10 (replicate 11 sample_part))"
    using ok by (simp add: list_all_iff)
  have nall: "\<not> list_all (acceptable (cfg (env_of [])) ''files'')
                  (take 10 (html_part # replicate 10 sample_part))"
    using bad by simp
  show ?thesis
    using all nall
      no_payload_rejected [of "get_request ''/api/files/upload''" "env_of []" fresh "[]"]
      no_payload_rejected [of "(get_request ''/api/files/upload/multiple'')\<lparr>req_files := Some []\<rparr>"
        "env_of []" fresh "[]"]
      no_payload_rejected [of "get_request ''/api/files/upload/multiple''" "env_of []" fresh
        "replicate 11 sample_part"]
      no_payload_rejected [of "get_request ''/api/files/upload/multiple''" "env_of []" fresh
        "html_part # replicate 10 sample_part"]
    by (simp add: get_request_def fresh_def)
qed

text \<open>
  C5 as stated fails: a request of eleven file parts whose first part is of a type that is
  not allowed is rejected while decoding at that first part, with \<open>INVALID_FILE_TYPE\<close>
  and not with \<open>TOO_MANY_FILES\<close>.
\<close>

theorem surplus_with_rejected_type:
  "length (html_part # replicate 10 sample_part) = 11
   \<and> post_upload_multiple (env_of []) (html_part # replicate 10 sample_part)
         (get_request ''/api/files/upload/multiple'') fresh =
       send 400 (JObj
         [(''success'', JBool False),
          (''error'', JStr ''Invalid file type''),
          (''message'', JStr ''File type text/html is not allowed. Allowed types: video/*, image/*, application/pdf''),
          (''code'', JStr ''INVALID_FILE_TYPE'')]) fresh
   \<and> post_upload_multiple (env_of []) (html_part # replicate 10 sample_part)
         (get_request ''/api/files/upload/multiple'') fresh \<noteq> send 400 too_many_files_body fresh"
proof -
  have d: "decode_parts default_config (upload_limits default_config) ''files'' 10
             (html_part # replicate 10 sample_part) [] =
           Inl (Error ''File type text/html is not allowed. Allowed types: video/*, image/*, application/pdf'')"
    by (simp add: upload_limits_def html_part_def fileFilter_def default_config_def isAllowed_def
        type_matches_def eval_strings)
  have c: "cfg (env_of []) = default_config" by (simp add: env_of_def)
  have p: "post_upload_multiple (env_of []) (html_part # replicate 10 sample_part)
         (get_request ''/api/files/upload/multiple'') fresh =
     on_upload_error default_config (clock (env_of []))
       (Error ''File type text/html is not allowed. Allowed types: video/*, image/*, application/pdf'')
       (get_request ''/api/files/upload/multiple'') fresh"
    unfolding post_upload_multiple_def c d by simp
  have q: "on_upload_error default_config (clock (env_of []))
       (Error ''File type text/html is not allowed. Allowed types: video/*, image/*, application/pdf'')
       (get_request ''/api/files/upload/multiple'') fresh =
       send 400 (JObj
         [(''success'', JBool False),
          (''error'', JStr ''Invalid file type''),
          (''message'', JStr ''File type text/html is not allowed. Allowed types: video/*, image/*, application/pdf''),
          (''code'', JStr ''INVALID_FILE_TYPE'')]) fresh"
    by (simp add: on_upload_error_def handleMulterError_def Error_def startsWith_def)
  have r: "send 400 (JObj
         [(''success'', JBool False),
          (''error'', JStr ''Invalid file type''),
          (''message'', JStr ''File type text/html is not allowed. Allowed types: video/*, image/*, application/pdf''),
          (''code'', JStr ''INVALID_FILE_TYPE'')]) fresh \<noteq> send 400 too_many_files_body fresh"
    by (simp add: send_def too_many_files_body_def fresh_def)
  show ?thesis unfolding p q using r by simp
qed


section \<open>Oversize files\<close>

text \<open>The code's share of the size check: a part that the decoder reports as cut at the
  size limit is answered 400 \<open>FILE_TOO_LARGE\<close>, the controller does not run and no call
  goes to the store. Where the decoder draws the line lies outside the repository.\<close>

lemma truncated_part_rejected:
  assumes "fieldname p = ''file''" "isAllowed (allowedFileTypes (cfg e)) (mimetype (content p))"
    and "truncated p"
  shows "post_upload e [p] req w =
           send 400 (JObj [(''success'', JBool False),
                           (''error'', JStr ''File too large''),
                           (''message'', JStr (''Maximum file size is '' @ maxFileSize (cfg e))),
                           (''code'', JStr ''FILE_TOO_LARGE'')]) w"
  using assms
  by (simp add: post_upload_def upload_limits_def fileFilter_def on_upload_error_def
      handleMulterError_def MulterError_def)


lemma truncated_part_no_call:
  assumes "fieldname p = ''file''" "isAllowed (allowedFileTypes (cfg e)) (mimetype (content p))"
    and "truncated p"
  shows "calls (post_upload e [p] req w) = calls w"
  by (simp add: truncated_part_rejected [OF assms])

end
